theory Spec2Isabelle
  imports Main
begin

section \<open>Exceptions and results\<close>

text \<open>
  The Python exceptions that the modelled functions of
  \<^verbatim>\<open>pytorch_lightning/utilities/auto_restart.py\<close> can raise. A method that mutates
  its receiver returns an \<open>outcome\<close>: the receiver after a normal return, or the
  exception together with the receiver as the method left it when it raised.
\<close>

datatype error =
    KeyError
  | IndexError
  | TypeError
  | AssertionError
  | AttributeError
  | StopIteration

datatype 's outcome = Returned 's | Raised error 's

section \<open>FastForwardSampler\<close>

text \<open>
  A sampler state dict is \<^verbatim>\<open>{worker_id: {"current_iteration": n}}\<close>. The inner
  dict has the one key \<^verbatim>\<open>"current_iteration"\<close> and is represented by its value, so a
  state dict is a map from worker ids to counts; \<^verbatim>\<open>len(state_dict)\<close> is the number
  of its keys.
\<close>

type_synonym state_dict = "nat \<rightharpoonup> int"

text \<open>
  The instance attributes set by \<^verbatim>\<open>__init__\<close>, under their names without the
  leading underscore. The wrapped \<^verbatim>\<open>_sampler\<close> is a deterministic finite producer:
  the list of the items one iteration over it emits.
\<close>

record 'a FastForwardSampler =
  sampler :: "'a list"
  restarting :: bool
  current_iteration :: int
  dataloader_batch_size :: "int option"
  cached_state_dict :: "state_dict option"

text \<open>\<^verbatim>\<open>__init__\<close> and \<^verbatim>\<open>setup\<close>.\<close>

definition init :: "'a list \<Rightarrow> 'a FastForwardSampler" where
  "init smp =
     \<lparr>sampler = smp, restarting = False, current_iteration = 0,
      dataloader_batch_size = None, cached_state_dict = None\<rparr>"

definition setup_sampler :: "int option \<Rightarrow> 'a FastForwardSampler \<Rightarrow> 'a FastForwardSampler" where
  "setup_sampler bs s = s\<lparr>dataloader_batch_size := bs\<rparr>"

text \<open>
  \<^verbatim>\<open>_compute_current_iteration\<close>: the supplied count if there is one, the counter
  otherwise, multiplied by the batch size when
  \<^verbatim>\<open>if self._dataloader_batch_size:\<close> holds, that is when it is neither
  \<^verbatim>\<open>None\<close> nor zero.
\<close>

definition compute_current_iteration :: "int option \<Rightarrow> 'a FastForwardSampler \<Rightarrow> int" where
  "compute_current_iteration num_batches_processed s =
     (let current = (case num_batches_processed of
                       Some n \<Rightarrow> n
                     | None \<Rightarrow> current_iteration s)
      in case dataloader_batch_size s of
           None \<Rightarrow> current
         | Some m \<Rightarrow> if m \<noteq> 0 then current * m else current)"

text \<open>
  The worker id is read from the surrounding process by \<^verbatim>\<open>get_worker_info()\<close>;
  here every operation that reads it takes it as the argument \<open>wid\<close>.
\<close>

definition state_dict :: "nat \<Rightarrow> int option \<Rightarrow> 'a FastForwardSampler \<Rightarrow> state_dict" where
  "state_dict wid num_batches_processed s =
     [wid \<mapsto> compute_current_iteration num_batches_processed s]"

text \<open>
  \<^verbatim>\<open>load_state_dict\<close>. In the deferred branch the cache is assigned before the entry
  of the current worker is looked up, so a missing entry raises \<^verbatim>\<open>KeyError\<close> with the
  cache already set.
\<close>

definition load_state_dict ::
  "state_dict \<Rightarrow> bool \<Rightarrow> nat \<Rightarrow> 'a FastForwardSampler \<Rightarrow> 'a FastForwardSampler outcome" where
  "load_state_dict sd workers_initialized wid s =
     (if 1 < card (dom sd) \<and> \<not> workers_initialized then
        (let s1 = s\<lparr>cached_state_dict := Some sd\<rparr>
         in case sd wid of
              None \<Rightarrow> Raised KeyError s1
            | Some n \<Rightarrow> Returned (s1\<lparr>restarting := 0 < n\<rparr>))
      else
        (case sd wid of
           None \<Rightarrow> Raised KeyError s
         | Some n \<Rightarrow> Returned (s\<lparr>current_iteration := n, restarting := 0 < n\<rparr>)))"

subsection \<open>The generator of \<^verbatim>\<open>__iter__\<close>\<close>

text \<open>
  \<^verbatim>\<open>__iter__\<close> is a generator: its body runs only while the consumer asks for the
  next item, and the sampler is visible (and may be snapshotted) between two items. A
  generator object is therefore a control point of the body: not started, inside the
  normal loop with the items still to come, inside the restart loop with the index of
  \<^verbatim>\<open>enumerate\<close> and the items still to come, or finished.
\<close>

datatype 'a gen =
    Start
  | NormalLoop "'a list"
  | RestartLoop nat "'a list"
  | Finished

datatype 'a step = Yield 'a | Stop | Fail error

text \<open>The normal loop: count, then yield; on exhaustion reset the counter.\<close>

fun normal_next :: "'a list \<Rightarrow> 'a FastForwardSampler \<Rightarrow> 'a step \<times> 'a gen \<times> 'a FastForwardSampler" where
  "normal_next [] s = (Stop, Finished, s\<lparr>current_iteration := 0\<rparr>)"
| "normal_next (batch # rest) s =
     (Yield batch, NormalLoop rest, s\<lparr>current_iteration := current_iteration s + 1\<rparr>)"

text \<open>
  The first statement of the restart loop's body: a cached state dict that has an entry
  for the current worker is loaded with \<^verbatim>\<open>workers_initialized=True\<close>, then dropped.
\<close>

definition reload_cached :: "nat \<Rightarrow> 'a FastForwardSampler \<Rightarrow> 'a FastForwardSampler outcome" where
  "reload_cached wid s =
     (case cached_state_dict s of
        None \<Rightarrow> Returned s
      | Some c \<Rightarrow>
          if wid \<in> dom c then
            (case load_state_dict c True wid s of
               Raised e s' \<Rightarrow> Raised e s'
             | Returned s' \<Rightarrow> Returned (s'\<lparr>cached_state_dict := None\<rparr>))
          else Returned s)"

text \<open>
  The restart loop, from item \<open>i\<close> on, up to its next \<^verbatim>\<open>yield\<close>: items whose index is
  below the counter are consumed and dropped.
\<close>

fun restart_next ::
  "nat \<Rightarrow> nat \<Rightarrow> 'a list \<Rightarrow> 'a FastForwardSampler \<Rightarrow> 'a step \<times> 'a gen \<times> 'a FastForwardSampler" where
  "restart_next wid i [] s = (Stop, Finished, s\<lparr>current_iteration := 0\<rparr>)"
| "restart_next wid i (batch # rest) s =
     (case reload_cached wid s of
        Raised e s' \<Rightarrow> (Fail e, Finished, s')
      | Returned s' \<Rightarrow>
          if current_iteration s' \<le> int i then
            (Yield batch, RestartLoop (Suc i) rest,
             s'\<lparr>current_iteration := current_iteration s' + 1\<rparr>)
          else restart_next wid (Suc i) rest s')"

text \<open>
  \<^verbatim>\<open>next(generator)\<close>. The test of \<^verbatim>\<open>self.restarting\<close> is made once, when the
  body starts.
\<close>

fun gen_next ::
  "nat \<Rightarrow> 'a gen \<Rightarrow> 'a FastForwardSampler \<Rightarrow> 'a step \<times> 'a gen \<times> 'a FastForwardSampler" where
  "gen_next wid Start s =
     (if \<not> restarting s then normal_next (sampler s) s
      else restart_next wid 0 (sampler s) s)"
| "gen_next wid (NormalLoop rest) s = normal_next rest s"
| "gen_next wid (RestartLoop i rest) s = restart_next wid i rest s"
| "gen_next wid Finished s = (Stop, Finished, s)"

text \<open>
  A consumer that asks for \<open>k\<close> items and stops: the items it got, the suspended
  generator and the sampler as it is then.
\<close>

fun consume ::
  "nat \<Rightarrow> nat \<Rightarrow> 'a gen \<Rightarrow> 'a FastForwardSampler \<Rightarrow> 'a list \<times> 'a gen \<times> 'a FastForwardSampler" where
  "consume 0 wid g s = ([], g, s)"
| "consume (Suc k) wid g s =
     (case gen_next wid g s of
        (Yield batch, g', s') \<Rightarrow>
          (case consume k wid g' s' of (got, g'', s'') \<Rightarrow> (batch # got, g'', s''))
      | (Stop, g', s') \<Rightarrow> ([], g', s')
      | (Fail e, g', s') \<Rightarrow> ([], g', s'))"

text \<open>
  A consumer that runs the generator to exhaustion, as a \<^verbatim>\<open>for\<close> loop or
  \<^verbatim>\<open>list(...)\<close> does: it asks for the next item until the generator stops. The
  result is the items yielded, the exception that ended the pass if one did, and the
  sampler afterwards. Every item yielded leaves fewer items of the wrapped producer to
  come, which is why the consumer's loop ends.
\<close>

lemma normal_next_shorter:
  "normal_next xs s = (Yield batch, g', s') \<Longrightarrow> \<exists>rest. g' = NormalLoop rest \<and> length rest < length xs"
  by (cases xs) auto

lemma restart_next_shorter:
  "restart_next wid i xs s = (Yield batch, g', s') \<Longrightarrow>
     \<exists>j rest. g' = RestartLoop j rest \<and> length rest < length xs"
proof (induction xs arbitrary: i s)
  case Nil
  then show ?case by simp
next
  case (Cons x xs)
  show ?case
  proof (cases "reload_cached wid s")
    case (Raised e s1)
    with Cons.prems show ?thesis by simp
  next
    case (Returned s1)
    show ?thesis
    proof (cases "current_iteration s1 \<le> int i")
      case True
      with Returned Cons.prems show ?thesis by auto
    next
      case False
      with Returned Cons.prems have "restart_next wid (Suc i) xs s1 = (Yield batch, g', s')"
        by simp
      from Cons.IH [OF this] show ?thesis by auto
    qed
  qed
qed

definition remaining :: "'a gen \<Rightarrow> 'a FastForwardSampler \<Rightarrow> nat" where
  "remaining g s =
     (case g of
        Start \<Rightarrow> Suc (length (sampler s))
      | NormalLoop rest \<Rightarrow> length rest
      | RestartLoop i rest \<Rightarrow> length rest
      | Finished \<Rightarrow> 0)"

lemma gen_next_remaining:
  "gen_next wid g s = (Yield batch, g', s') \<Longrightarrow> remaining g' s' < remaining g s"
proof (cases g)
  case Start
  assume y: "gen_next wid g s = (Yield batch, g', s')"
  show ?thesis
  proof (cases "restarting s")
    case True
    with Start y have "restart_next wid 0 (sampler s) s = (Yield batch, g', s')" by simp
    from restart_next_shorter [OF this] Start show ?thesis by (auto simp: remaining_def)
  next
    case False
    with Start y have "normal_next (sampler s) s = (Yield batch, g', s')" by simp
    from normal_next_shorter [OF this] Start show ?thesis by (auto simp: remaining_def)
  qed
next
  case (NormalLoop rest)
  assume "gen_next wid g s = (Yield batch, g', s')"
  with NormalLoop have "normal_next rest s = (Yield batch, g', s')" by simp
  from normal_next_shorter [OF this] NormalLoop show ?thesis by (auto simp: remaining_def)
next
  case (RestartLoop i rest)
  assume "gen_next wid g s = (Yield batch, g', s')"
  with RestartLoop have "restart_next wid i rest s = (Yield batch, g', s')" by simp
  from restart_next_shorter [OF this] RestartLoop show ?thesis by (auto simp: remaining_def)
next
  case Finished
  assume "gen_next wid g s = (Yield batch, g', s')"
  with Finished show ?thesis by simp
qed

function exhaust ::
  "nat \<Rightarrow> 'a gen \<Rightarrow> 'a FastForwardSampler \<Rightarrow> 'a list \<times> error option \<times> 'a FastForwardSampler" where
  "exhaust wid g s =
     (case gen_next wid g s of
        (Yield batch, g', s') \<Rightarrow>
          (case exhaust wid g' s' of (got, e, s'') \<Rightarrow> (batch # got, e, s''))
      | (Stop, g', s') \<Rightarrow> ([], None, s')
      | (Fail e, g', s') \<Rightarrow> ([], Some e, s'))"
  by pat_completeness auto
termination
  by (relation "measure (\<lambda>(wid, g, s). remaining g s)")
    (auto dest: gen_next_remaining [OF sym])

declare exhaust.simps [simp del]

text \<open>\<^verbatim>\<open>list(iter(sampler))\<close>: one whole pass.\<close>

definition iterate :: "nat \<Rightarrow> 'a FastForwardSampler \<Rightarrow> 'a list \<times> error option \<times> 'a FastForwardSampler" where
  "iterate wid s = exhaust wid Start s"

text \<open>The components of a pass's result.\<close>

definition items :: "'a list \<times> error option \<times> 'a FastForwardSampler \<Rightarrow> 'a list" where
  "items r = fst r"

definition raised :: "'a list \<times> error option \<times> 'a FastForwardSampler \<Rightarrow> error option" where
  "raised r = fst (snd r)"

definition after :: "'a list \<times> error option \<times> 'a FastForwardSampler \<Rightarrow> 'a FastForwardSampler" where
  "after r = snd (snd r)"

subsection \<open>Attribute lookup\<close>

text \<open>
  The values an attribute can hold, as far as the model needs them: an opaque object is
  named by a string. What \<^verbatim>\<open>__init__\<close> has assigned is the instance's
  \<^verbatim>\<open>__dict__\<close>; \<^verbatim>\<open>_sampler\<close> is always among its keys, so that \<^verbatim>\<open>self._sampler\<close>
  inside \<^verbatim>\<open>__getattr__\<close> is found by the normal lookup.
\<close>

datatype 'a pyvalue =
    PyNone
  | PyBool bool
  | PyInt int
  | PyStateDict state_dict
  | PyProducer "'a list"
  | PyObject string

definition instance_dict :: "'a FastForwardSampler \<Rightarrow> string \<rightharpoonup> 'a pyvalue" where
  "instance_dict s =
     [''_sampler'' \<mapsto> PyProducer (sampler s),
      ''restarting'' \<mapsto> PyBool (restarting s),
      ''_current_iteration'' \<mapsto> PyInt (current_iteration s),
      ''_dataloader_batch_size'' \<mapsto>
         (case dataloader_batch_size s of None \<Rightarrow> PyNone | Some m \<Rightarrow> PyInt m),
      ''_cached_state_dict'' \<mapsto>
         (case cached_state_dict s of None \<Rightarrow> PyNone | Some c \<Rightarrow> PyStateDict c)]"

text \<open>
  \<^verbatim>\<open>getattr(obj, key, None)\<close>: the lookup on \<open>obj\<close>, with \<^verbatim>\<open>AttributeError\<close> (and
  no other exception) turned into \<^verbatim>\<open>None\<close>. The wrapped sampler is an object of the
  caller's; its attribute lookup is the parameter \<open>sampler_attr\<close>.
\<close>

definition getattr_default_None ::
  "(string \<Rightarrow> error + 'a pyvalue) \<Rightarrow> string \<Rightarrow> error + 'a pyvalue" where
  "getattr_default_None obj key =
     (case obj key of
        Inl e \<Rightarrow> if e = AttributeError then Inr PyNone else Inl e
      | Inr v \<Rightarrow> Inr v)"

text \<open>\<^verbatim>\<open>FastForwardSampler.__getattr__\<close>.\<close>

definition getattr_FastForwardSampler ::
  "(string \<Rightarrow> error + 'a pyvalue) \<Rightarrow> 'a FastForwardSampler \<Rightarrow> string
     \<Rightarrow> error + 'a pyvalue" where
  "getattr_FastForwardSampler sampler_attr s key =
     (case instance_dict s key of
        Some v \<Rightarrow> Inr v
      | None \<Rightarrow> getattr_default_None sampler_attr key)"

text \<open>
  Python's \<^verbatim>\<open>sampler.key\<close>: what the class defines (methods, the \<^verbatim>\<open>worker_id\<close>
  property; the parameter \<open>class_attr\<close>) and the instance's \<^verbatim>\<open>__dict__\<close> are looked
  up first, and \<^verbatim>\<open>__getattr__\<close> is called only when both fail.
\<close>

definition attribute_access ::
  "(string \<rightharpoonup> 'a pyvalue) \<Rightarrow> (string \<Rightarrow> error + 'a pyvalue)
     \<Rightarrow> 'a FastForwardSampler \<Rightarrow> string \<Rightarrow> error + 'a pyvalue" where
  "attribute_access class_attr sampler_attr s key =
     (case class_attr key of
        Some v \<Rightarrow> Inr v
      | None \<Rightarrow>
          (case instance_dict s key of
             Some v \<Rightarrow> Inr v
           | None \<Rightarrow> getattr_FastForwardSampler sampler_attr s key))"

section \<open>Pipeline state\<close>

text \<open>
  A pipeline state is a list of dicts with string keys (\<^verbatim>\<open>"num_workers"\<close>,
  \<^verbatim>\<open>"previous_worker"\<close>, \<^verbatim>\<open>"sampler"\<close>, \<^verbatim>\<open>"loader"\<close>) and values of several kinds.
\<close>

datatype 'l val =
    VNone
  | VInt int
  | VStateDict state_dict
  | VLoader 'l

type_synonym 'l entry = "string \<rightharpoonup> 'l val"

subsection \<open>The worker-selection cursor\<close>

text \<open>
  The iterator of a data loader is torch's. Of a \<^verbatim>\<open>_MultiProcessingDataLoaderIter\<close> the
  functions below use the worker count, the cursor
  \<^verbatim>\<open>_worker_queue_idx_cycle = itertools.cycle(range(num_workers))\<close>, represented by the
  index it returns next, and the reset entry point, whose calls
  \<^verbatim>\<open>_reset(loader, first_iter)\<close> are logged and not interpreted (\<^verbatim>\<open>_ori_reset\<close> is taken
  to be there). Any other iterator is known by its \<^verbatim>\<open>_num_workers\<close> attribute, if it
  has one.
\<close>

record 'l MultiProcessingDataLoaderIter =
  num_workers :: nat
  worker_queue_idx_cycle :: nat
  reset_calls :: "('l val \<times> bool) list"

datatype 'l loader_iter =
    MultiProcessing "'l MultiProcessingDataLoaderIter"
  | OtherIterator "nat option"

text \<open>
  \<^verbatim>\<open>next(cycle)\<close>: the index returned and the next position; a cycle over an empty
  range stops at once.
\<close>

definition cycle_next :: "nat \<Rightarrow> nat \<Rightarrow> error + nat \<times> nat" where
  "cycle_next n pos = (if n = 0 then Inl StopIteration else Inr (pos, (pos + 1) mod n))"

text \<open>
  \<^verbatim>\<open>while next(cycle) != target: pass\<close>. The loop has no bound of its own (a target
  that is not an index of the cycle is never met), so its result is optional: \<open>None\<close> is
  a loop that does not end.
\<close>

partial_function (option) advance_until :: "nat \<Rightarrow> int \<Rightarrow> nat \<Rightarrow> (error + nat) option" where
  "advance_until n target pos =
     (case cycle_next n pos of
        Inl e \<Rightarrow> Some (Inl e)
      | Inr (idx, pos') \<Rightarrow>
          if int idx \<noteq> target then advance_until n target pos' else Some (Inr pos'))"

text \<open>\<^verbatim>\<open>for _ in range(k): next(cycle)\<close>.\<close>

fun advance_times :: "nat \<Rightarrow> nat \<Rightarrow> nat \<Rightarrow> error + nat" where
  "advance_times 0 n pos = Inr pos"
| "advance_times (Suc k) n pos =
     (case cycle_next n pos of
        Inl e \<Rightarrow> Inl e
      | Inr (idx, pos') \<Rightarrow> advance_times k n pos')"

text \<open>
  \<^verbatim>\<open>fetch_previous_worker_state_dict\<close>: for a multiprocessing iterator the cursor is
  read once, the worker before the one read is computed modulo the worker count, and the
  cursor is advanced until it has returned that worker. The result is the iterator and
  the list \<open>out\<close> after the call.
\<close>

definition fetch_previous_worker_state_dict ::
  "'l loader_iter \<Rightarrow> 'l entry list \<Rightarrow> ('l loader_iter \<times> 'l entry list) outcome option" where
  "fetch_previous_worker_state_dict it out =
     (case it of
        OtherIterator nw \<Rightarrow>
          Some (Returned (it,
            out @ [[''num_workers'' \<mapsto> VInt (case nw of None \<Rightarrow> 0 | Some n \<Rightarrow> int n),
                    ''previous_worker'' \<mapsto> VNone]]))
      | MultiProcessing m \<Rightarrow>
          (case cycle_next (num_workers m) (worker_queue_idx_cycle m) of
             Inl e \<Rightarrow> Some (Raised e (it, out))
           | Inr (idx, pos1) \<Rightarrow>
               (let next_worker = int idx mod int (num_workers m);
                    previous_worker = (next_worker - 1) mod int (num_workers m)
                in case advance_until (num_workers m) previous_worker pos1 of
                     None \<Rightarrow> None
                   | Some (Inl e) \<Rightarrow>
                       Some (Raised e (MultiProcessing (m\<lparr>worker_queue_idx_cycle := pos1\<rparr>), out))
                   | Some (Inr pos2) \<Rightarrow>
                       Some (Returned
                         (MultiProcessing (m\<lparr>worker_queue_idx_cycle := pos2\<rparr>),
                          out @ [[''num_workers'' \<mapsto> VInt (int (num_workers m)),
                                  ''previous_worker'' \<mapsto> VInt previous_worker]])))))"

text \<open>
  \<^verbatim>\<open>cycle_to_next_worker\<close>. The statements run in the source's order: the entry is
  read, the worker counts are compared by the \<^verbatim>\<open>assert\<close>, and only then is the cursor
  moved (back to 0, then \<^verbatim>\<open>previous_worker - 1\<close> steps) and the reset called. The
  \<^verbatim>\<open>assert\<close> is a statement that is executed (Python does not run with \<^verbatim>\<open>-O\<close>).
  The increment of the local \<^verbatim>\<open>count\<close> has no effect outside the call.
\<close>

definition cycle_to_next_worker ::
  "'l loader_iter \<Rightarrow> 'l entry list \<Rightarrow> nat \<Rightarrow> 'l loader_iter outcome option" where
  "cycle_to_next_worker it sd count =
     (if length sd \<le> count then Some (Raised IndexError it)
      else
        (let current = sd ! count in
         case (case it of MultiProcessing m \<Rightarrow> Some (num_workers m) | OtherIterator nw \<Rightarrow> nw) of
           None \<Rightarrow> Some (Raised AttributeError it)
         | Some n \<Rightarrow>
             (case current ''num_workers'' of
                None \<Rightarrow> Some (Raised KeyError it)
              | Some v \<Rightarrow>
                  if v \<noteq> VInt (int n) then Some (Raised AssertionError it)
                  else
                    (case it of
                       OtherIterator nw \<Rightarrow> Some (Returned it)
                     | MultiProcessing m \<Rightarrow>
                         (case advance_until n 0 (worker_queue_idx_cycle m) of
                            None \<Rightarrow> None
                          | Some (Inl e) \<Rightarrow> Some (Raised e it)
                          | Some (Inr pos1) \<Rightarrow>
                              (let m1 = m\<lparr>worker_queue_idx_cycle := pos1\<rparr> in
                               case current ''previous_worker'' of
                                 None \<Rightarrow> Some (Raised KeyError (MultiProcessing m1))
                               | Some (VInt pw) \<Rightarrow>
                                   (case advance_times (nat (pw - 1)) n pos1 of
                                      Inl e \<Rightarrow> Some (Raised e (MultiProcessing m1))
                                    | Inr pos2 \<Rightarrow>
                                        (let m2 = m\<lparr>worker_queue_idx_cycle := pos2\<rparr> in
                                         case current ''loader'' of
                                           None \<Rightarrow> Some (Raised KeyError (MultiProcessing m2))
                                         | Some l \<Rightarrow>
                                             Some (Returned (MultiProcessing
                                               (m2\<lparr>reset_calls := reset_calls m2 @ [(l, True)]\<rparr>)))))
                               | Some _ \<Rightarrow> Some (Raised TypeError (MultiProcessing m1))))))))"

subsection \<open>Data loaders\<close>

text \<open>
  Of a \<^verbatim>\<open>DataLoader\<close> the functions read \<^verbatim>\<open>sampler\<close> and \<^verbatim>\<open>batch_sampler\<close>:
  each is a FastForwardSampler, some other object, or \<^verbatim>\<open>None\<close>.
\<close>

datatype ('a, 'o) sampler_object =
    FastForward "'a FastForwardSampler"
  | OtherSampler 'o
  | NoSampler

record ('a, 'o) DataLoader =
  dl_sampler :: "('a, 'o) sampler_object"
  dl_batch_sampler :: "('a, 'o) sampler_object"

datatype sampler_attr = Attr_sampler | Attr_batch_sampler

text \<open>
  \<^verbatim>\<open>find_fast_forward_samplers\<close> returns a reference to the sampler found: here the
  attribute it was found under together with its value, so that a caller can store what
  it does to the sampler. With neither attribute a FastForwardSampler the function falls
  off its end and returns \<^verbatim>\<open>None\<close>.
\<close>

definition find_fast_forward_samplers ::
  "('a, 'o) DataLoader \<Rightarrow> (sampler_attr \<times> 'a FastForwardSampler) option" where
  "find_fast_forward_samplers dataloader =
     (case dl_sampler dataloader of
        FastForward s \<Rightarrow> Some (Attr_sampler, s)
      | _ \<Rightarrow>
          (case dl_batch_sampler dataloader of
             FastForward s \<Rightarrow> Some (Attr_batch_sampler, s)
           | _ \<Rightarrow> None))"

fun store_sampler ::
  "sampler_attr \<Rightarrow> 'a FastForwardSampler \<Rightarrow> ('a, 'o) DataLoader \<Rightarrow> ('a, 'o) DataLoader" where
  "store_sampler Attr_sampler s dataloader = dataloader\<lparr>dl_sampler := FastForward s\<rparr>"
| "store_sampler Attr_batch_sampler s dataloader = dataloader\<lparr>dl_batch_sampler := FastForward s\<rparr>"

text \<open>
  \<^verbatim>\<open>dataloader_load_state_dict\<close>. \<^verbatim>\<open>state_dict[0]["sampler"]\<close> is evaluated only
  when a FastForwardSampler has been found.
\<close>

definition dataloader_load_state_dict ::
  "nat \<Rightarrow> ('a, 'o) DataLoader \<Rightarrow> 'l entry list \<Rightarrow> ('a, 'o) DataLoader outcome" where
  "dataloader_load_state_dict wid dataloader sd =
     (case find_fast_forward_samplers dataloader of
        None \<Rightarrow> Returned dataloader
      | Some (attr, fast_forward_sampler) \<Rightarrow>
          (case sd of
             [] \<Rightarrow> Raised IndexError dataloader
           | first # _ \<Rightarrow>
               (case first ''sampler'' of
                  None \<Rightarrow> Raised KeyError dataloader
                | Some (VStateDict d) \<Rightarrow>
                    (case load_state_dict d False wid fast_forward_sampler of
                       Returned s' \<Rightarrow> Returned (store_sampler attr s' dataloader)
                     | Raised e s' \<Rightarrow> Raised e (store_sampler attr s' dataloader))
                | Some _ \<Rightarrow> Raised TypeError dataloader)))"

text \<open>\<^verbatim>\<open>isinstance(obj, FastForwardSampler)\<close>.\<close>

definition is_FastForwardSampler :: "('a, 'o) sampler_object \<Rightarrow> bool" where
  "is_FastForwardSampler obj = (case obj of FastForward s \<Rightarrow> True | _ \<Rightarrow> False)"

section \<open>CaptureIterableDataset: stripping the sampler state off a batch\<close>

text \<open>
  The value the capture layer stores under the marker key, after collation. Before
  collation \<^verbatim>\<open>__next__\<close> builds
  \<^verbatim>\<open>{"id": worker_id, name: {worker_id: {"current_iteration": n}}, ...}\<close>, with one
  entry per wrapped sampler under the name of its attribute; collation turns each number
  into a tensor with one element per sample. A carried number is therefore a tensor, or
  still a plain integer when the loader does not collate.
\<close>

datatype ints = Tensor "int list" | Plain int

text \<open>
  A snapshot is a dict with string keys. It is represented by the value under
  \<^verbatim>\<open>"id"\<close>, if that key is present, and by its other items in their order: the name
  of a sampler and its state dict, which is a dict from worker ids to
  \<^verbatim>\<open>{"current_iteration": n}\<close>, the inner dict again represented by its value.
\<close>

datatype snapshot =
  Snapshot (worker_ids: "ints option") (sampler_items: "(string \<times> (int \<times> ints) list) list")

datatype key = SKey string | IKey int

text \<open>
  The type of a container, as far as the walk uses it: its name, and what its constructor
  does when the walk calls it to rebuild the container from the parts it has collected
  (\<^verbatim>\<open>elem_type(OrderedDict(out))\<close> for a mapping, \<^verbatim>\<open>elem_type(out)\<close> for a sequence,
  \<^verbatim>\<open>elem_type(*out)\<close> for a named tuple, \<^verbatim>\<open>elem_type(**out)\<close> for a dataclass).
  With no error, the call gives a container of that type that holds the parts: so it is
  for \<^verbatim>\<open>dict\<close>, \<^verbatim>\<open>OrderedDict\<close>, \<^verbatim>\<open>list\<close>, \<^verbatim>\<open>tuple\<close>, a named tuple,
  and a dataclass whose fields are all parameters of its \<^verbatim>\<open>__init__\<close>. Otherwise the
  call raises the error given: \<^verbatim>\<open>TypeError\<close> for \<^verbatim>\<open>defaultdict\<close> and
  \<^verbatim>\<open>range\<close>, whose constructors take other arguments.
\<close>

datatype elem_type = ElemType (type_name: string) (rebuild_error: "error option")

text \<open>
  Four Python types: \<^verbatim>\<open>dict\<close> and \<^verbatim>\<open>list\<close> are rebuilt from their parts;
  \<^verbatim>\<open>defaultdict(OrderedDict(out))\<close> and \<^verbatim>\<open>range(out)\<close> raise \<^verbatim>\<open>TypeError\<close>.
\<close>

definition dict_type :: elem_type where "dict_type = ElemType ''dict'' None"
definition list_type :: elem_type where "list_type = ElemType ''list'' None"
definition defaultdict_type :: elem_type where "defaultdict_type = ElemType ''defaultdict'' (Some TypeError)"
definition range_type :: elem_type where "range_type = ElemType ''range'' (Some TypeError)"

text \<open>
  Modelled from the spec: the tests \<^verbatim>\<open>_is_namedtuple\<close> and
  \<^verbatim>\<open>_is_dataclass_instance\<close> are imported from
  \<^verbatim>\<open>pytorch_lightning.utilities.apply_func\<close>; they tell the tuple-like and the
  record-like values apart, which here are constructors of their own. A batch is a nested
  value: a mapping (its items in iteration order, the keys strings or integers), a
  sequence other than a string, a named tuple, a dataclass instance (the fields of
  \<^verbatim>\<open>__dataclass_fields__\<close> in their order, each an attribute of the instance), or any
  other value, strings included, which the walk returns as it is. Looking up a key that a
  mapping does not have raises \<^verbatim>\<open>KeyError\<close>, as for a \<^verbatim>\<open>dict\<close>; a mapping type
  that answers a missing key with a value of its own (a \<^verbatim>\<open>defaultdict\<close> that has a
  factory) is taken not to lack the key that is looked up.

  Modelled from the spec: \<^verbatim>\<open>AutoRestartBatchKeys.PL_SAMPLERS\<close>, the special
  composite-state marker key, is imported from \<^verbatim>\<open>pytorch_lightning.utilities.enums\<close>.
  It is a key of its own, different from every ordinary key, and what is stored under it
  is what the capture layer stores: a snapshot. A mapping that has the marker key is the
  constructor \<open>Captured\<close>: its type, its items before the marker, the snapshot under the
  marker, and its items after the marker.
\<close>

datatype 'a data =
    Leaf 'a
  | Mapping elem_type "(key \<times> 'a data) list"
  | Captured elem_type "(key \<times> 'a data) list" snapshot "(key \<times> 'a data) list"
  | Sequence elem_type "'a data list"
  | NamedTuple elem_type "'a data list"
  | DataClass elem_type "(string \<times> 'a data) list"

text \<open>
  What is appended to the accumulator for one marker:
  \<^verbatim>\<open>{sampler_name: {worker_id: {"current_iteration": n}}}\<close>, the innermost dict
  represented by its value.
\<close>

type_synonym sampler_states = "string \<rightharpoonup> (int \<rightharpoonup> int)"

text \<open>
  \<^verbatim>\<open>x[-1].item()\<close>: the last element of a tensor, \<^verbatim>\<open>IndexError\<close> on an empty one;
  a plain integer cannot be subscripted.
\<close>

definition last_item :: "ints \<Rightarrow> error + int" where
  "last_item x =
     (case x of
        Tensor xs \<Rightarrow> if xs = [] then Inl IndexError else Inr (last xs)
      | Plain n \<Rightarrow> Inl TypeError)"

text \<open>
  The loop over \<^verbatim>\<open>v.items()\<close> that fills \<^verbatim>\<open>iterable_dataset_state_dict\<close>:
  \<^verbatim>\<open>sampler_state_dict[worker_id]\<close> raises \<^verbatim>\<open>KeyError\<close> when the sampler's state
  dict has no entry for the worker.
\<close>

fun collect_states ::
  "int \<Rightarrow> (string \<times> (int \<times> ints) list) list \<Rightarrow> sampler_states \<Rightarrow> error + sampler_states" where
  "collect_states worker_id [] iterable_dataset_state_dict = Inr iterable_dataset_state_dict"
| "collect_states worker_id ((sampler_name, sampler_state_dict) # rest) iterable_dataset_state_dict =
     (case map_of sampler_state_dict worker_id of
        None \<Rightarrow> Inl KeyError
      | Some counts \<Rightarrow>
          (case last_item counts of
             Inl e \<Rightarrow> Inl e
           | Inr n \<Rightarrow>
               collect_states worker_id rest
                 (iterable_dataset_state_dict(sampler_name \<mapsto> [worker_id \<mapsto> n]))))"

text \<open>
  The body of the branch \<^verbatim>\<open>k == AutoRestartBatchKeys.PL_SAMPLERS\<close> up to the
  \<^verbatim>\<open>append\<close>. \<^verbatim>\<open>v.pop("id")\<close> raises \<^verbatim>\<open>KeyError\<close> when the key is absent and
  otherwise removes it from \<open>v\<close>, which is part of the batch. The result is \<open>v\<close> as the
  branch leaves it, and the extracted state.
\<close>

definition extract_sampler_state :: "snapshot \<Rightarrow> error + snapshot \<times> sampler_states" where
  "extract_sampler_state v =
     (case worker_ids v of
        None \<Rightarrow> Inl KeyError
      | Some batch_worker_id \<Rightarrow>
          (case last_item batch_worker_id of
             Inl e \<Rightarrow> Inl e
           | Inr worker_id \<Rightarrow>
               (case collect_states worker_id (sampler_items v) Map.empty of
                  Inl e \<Rightarrow> Inl e
                | Inr st \<Rightarrow> Inr (Snapshot None (sampler_items v), st))))"

text \<open>
  \<^verbatim>\<open>_sanetize_batch_from_sampler_state\<close>. The source changes two objects in place:
  the accumulator list and, through \<^verbatim>\<open>pop\<close>, the batch it is given. A successful call
  therefore returns three things: the value returned, the batch as the call left it, and
  the accumulator as the call left it. The batch is taken to be a tree: no object occurs
  in it twice. \<open>sanetize_mapping\<close> is the loop over \<^verbatim>\<open>data.items()\<close>: the pairs
  collected in \<open>out\<close>, the items already visited (as they are now) in \<open>seen\<close>, the
  ordinary items still to come and, if the mapping has the marker, the snapshot and the
  items after it. When the marker is met, \<^verbatim>\<open>data["data"]\<close> is read from the mapping as
  it is then, and the mapping's type is not called; when the items run out, the mapping is
  rebuilt by a call of its type, which may raise. \<open>sanetize_elements\<close> and
  \<open>sanetize_fields\<close> are the loops over a sequence and over a dataclass's fields.
\<close>

fun sanetize_batch_from_sampler_state ::
      "'a data \<Rightarrow> sampler_states list \<Rightarrow> error + 'a data \<times> 'a data \<times> sampler_states list"
  and sanetize_mapping ::
      "elem_type \<Rightarrow> (key \<times> 'a data) list \<Rightarrow> (key \<times> 'a data) list \<Rightarrow> (key \<times> 'a data) list
         \<Rightarrow> (snapshot \<times> (key \<times> 'a data) list) option
         \<Rightarrow> sampler_states list \<Rightarrow> error + 'a data \<times> 'a data \<times> sampler_states list"
  and sanetize_elements ::
      "'a data list \<Rightarrow> sampler_states list
         \<Rightarrow> error + 'a data list \<times> 'a data list \<times> sampler_states list"
  and sanetize_fields ::
      "(string \<times> 'a data) list \<Rightarrow> sampler_states list
         \<Rightarrow> error + (string \<times> 'a data) list \<times> (string \<times> 'a data) list \<times> sampler_states list"
where
  "sanetize_batch_from_sampler_state (Mapping ty kvs) states =
     sanetize_mapping ty [] [] kvs None states"
| "sanetize_batch_from_sampler_state (Captured ty pre v post) states =
     sanetize_mapping ty [] [] pre (Some (v, post)) states"
| "sanetize_batch_from_sampler_state (NamedTuple ty ds) states =
     (case sanetize_elements ds states of
        Inl e \<Rightarrow> Inl e
      | Inr (out, ds', states') \<Rightarrow>
          (case rebuild_error ty of
             Some e \<Rightarrow> Inl e
           | None \<Rightarrow> Inr (NamedTuple ty out, NamedTuple ty ds', states')))"
| "sanetize_batch_from_sampler_state (Sequence ty ds) states =
     (case sanetize_elements ds states of
        Inl e \<Rightarrow> Inl e
      | Inr (out, ds', states') \<Rightarrow>
          (case rebuild_error ty of
             Some e \<Rightarrow> Inl e
           | None \<Rightarrow> Inr (Sequence ty out, Sequence ty ds', states')))"
| "sanetize_batch_from_sampler_state (DataClass ty fs) states =
     (case sanetize_fields fs states of
        Inl e \<Rightarrow> Inl e
      | Inr (out, fs', states') \<Rightarrow>
          (case rebuild_error ty of
             Some e \<Rightarrow> Inl e
           | None \<Rightarrow> Inr (DataClass ty out, DataClass ty fs', states')))"
| "sanetize_batch_from_sampler_state (Leaf x) states = Inr (Leaf x, Leaf x, states)"
| "sanetize_mapping ty out seen [] None states =
     (case rebuild_error ty of
        Some e \<Rightarrow> Inl e
      | None \<Rightarrow> Inr (Mapping ty out, Mapping ty seen, states))"
| "sanetize_mapping ty out seen [] (Some (v, post)) states =
     (case extract_sampler_state v of
        Inl e \<Rightarrow> Inl e
      | Inr (v', iterable_dataset_state_dict) \<Rightarrow>
          (case map_of (seen @ post) (SKey ''data'') of
             None \<Rightarrow> Inl KeyError
           | Some payload \<Rightarrow>
               Inr (payload, Captured ty seen v' post,
                    states @ [iterable_dataset_state_dict])))"
| "sanetize_mapping ty out seen ((k, v) # rest) marker states =
     (case sanetize_batch_from_sampler_state v states of
        Inl e \<Rightarrow> Inl e
      | Inr (v_out, v', states') \<Rightarrow>
          sanetize_mapping ty (out @ [(k, v_out)]) (seen @ [(k, v')]) rest marker states')"
| "sanetize_elements [] states = Inr ([], [], states)"
| "sanetize_elements (d # ds) states =
     (case sanetize_batch_from_sampler_state d states of
        Inl e \<Rightarrow> Inl e
      | Inr (v, d', states') \<Rightarrow>
          (case sanetize_elements ds states' of
             Inl e \<Rightarrow> Inl e
           | Inr (out, ds', states'') \<Rightarrow> Inr (v # out, d' # ds', states'')))"
| "sanetize_fields [] states = Inr ([], [], states)"
| "sanetize_fields ((field, d) # fs) states =
     (case sanetize_batch_from_sampler_state d states of
        Inl e \<Rightarrow> Inl e
      | Inr (v, d', states') \<Rightarrow>
          (case sanetize_fields fs states' of
             Inl e \<Rightarrow> Inl e
           | Inr (out, fs', states'') \<Rightarrow>
               Inr ((field, v) # out, (field, d') # fs', states'')))"

text \<open>
  \<^verbatim>\<open>convert_batch_into_state_dict\<close>: the accumulator starts empty, and the pair
  returned is the stripped batch and the accumulator.
\<close>

definition convert_batch_into_state_dict ::
  "'a data \<Rightarrow> error + 'a data \<times> 'a data \<times> sampler_states list" where
  "convert_batch_into_state_dict batch = sanetize_batch_from_sampler_state batch []"

subsection \<open>What the specification says of stripping\<close>

text \<open>
  The definitions of this subsection follow the words of the specification, not the
  code. A batch is free of markers when no mapping anywhere in it has the marker key.
\<close>

fun marker_free :: "'a data \<Rightarrow> bool" where
  "marker_free (Mapping ty kvs) = (\<forall>kv \<in> set kvs. marker_free (snd kv))"
| "marker_free (Captured ty pre v post) = False"
| "marker_free (NamedTuple ty ds) = (\<forall>d \<in> set ds. marker_free d)"
| "marker_free (Sequence ty ds) = (\<forall>d \<in> set ds. marker_free d)"
| "marker_free (DataClass ty fs) = (\<forall>f \<in> set fs. marker_free (snd f))"
| "marker_free (Leaf x) = True"

text \<open>
  A snapshot as the capture layer produces it and collation vectorizes it:
  \<^verbatim>\<open>{"id": ids, name: {w: {"current_iteration": counts}}, ...}\<close>, where \<open>ids\<close> is a
  tensor that is not empty, \<open>w\<close> is its last element, every sampler has an entry for
  \<open>w\<close>, and that entry's \<open>counts\<close> is a tensor that is not empty. Being dicts, the
  snapshot and the state dicts in it have no key twice, and no sampler is called
  \<^verbatim>\<open>"id"\<close>. Unwrapped, the snapshot is \<^verbatim>\<open>{name: {w: last of counts}, ...}\<close>.
\<close>

definition is_sampler_state :: "snapshot \<Rightarrow> bool" where
  "is_sampler_state v =
     (case worker_ids v of
        Some (Tensor ids) \<Rightarrow>
          ids \<noteq> [] \<and> distinct (map fst (sampler_items v)) \<and>
          (\<forall>item \<in> set (sampler_items v).
             fst item \<noteq> ''id'' \<and> distinct (map fst (snd item)) \<and>
             (case map_of (snd item) (last ids) of
                Some (Tensor cs) \<Rightarrow> cs \<noteq> []
              | _ \<Rightarrow> False))
      | _ \<Rightarrow> False)"

definition unwrapped_state :: "snapshot \<Rightarrow> sampler_states" where
  "unwrapped_state v =
     (case worker_ids v of
        Some (Tensor ids) \<Rightarrow>
          (\<lambda>name. case map_of (sampler_items v) name of
                     None \<Rightarrow> None
                   | Some sampler_state_dict \<Rightarrow>
                       (case map_of sampler_state_dict (last ids) of
                          Some (Tensor cs) \<Rightarrow> Some [last ids \<mapsto> last cs]
                        | _ \<Rightarrow> None))
      | _ \<Rightarrow> Map.empty)"

text \<open>The snapshot without its \<^verbatim>\<open>"id"\<close> entry.\<close>

definition without_id :: "snapshot \<Rightarrow> snapshot" where
  "without_id v = Snapshot None (sampler_items v)"

text \<open>
  A well-formed batch. Every container that the walk rebuilds has a type whose
  constructor accepts the rebuilt parts, and no mapping or dataclass has a key or a field
  twice. A mapping that carries the marker has a \<^verbatim>\<open>"data"\<close> entry, the snapshot under
  its marker is as described above, and its other entries are well formed and carry no
  marker; its own type is not called and may be any.
\<close>

fun well_formed :: "'a data \<Rightarrow> bool" where
  "well_formed (Mapping ty kvs) =
     (rebuild_error ty = None \<and> distinct (map fst kvs) \<and>
      (\<forall>kv \<in> set kvs. well_formed (snd kv)))"
| "well_formed (Captured ty pre v post) =
     (distinct (map fst (pre @ post)) \<and> SKey ''data'' \<in> fst ` set (pre @ post) \<and>
      is_sampler_state v \<and>
      (\<forall>kv \<in> set (pre @ post). marker_free (snd kv) \<and> well_formed (snd kv)))"
| "well_formed (NamedTuple ty ds) = (rebuild_error ty = None \<and> (\<forall>d \<in> set ds. well_formed d))"
| "well_formed (Sequence ty ds) = (rebuild_error ty = None \<and> (\<forall>d \<in> set ds. well_formed d))"
| "well_formed (DataClass ty fs) =
     (rebuild_error ty = None \<and> distinct (map fst fs) \<and>
      (\<forall>f \<in> set fs. well_formed (snd f)))"
| "well_formed (Leaf x) = True"

text \<open>
  The payload: the batch with every marker-carrying mapping replaced by its
  \<^verbatim>\<open>"data"\<close> entry, shape and container types kept elsewhere.
\<close>

fun spec_payload :: "'a data \<Rightarrow> 'a data" where
  "spec_payload (Mapping ty kvs) = Mapping ty (map (\<lambda>kv. (fst kv, spec_payload (snd kv))) kvs)"
| "spec_payload (Captured ty pre v post) =
     (case map_of (pre @ post) (SKey ''data'') of
        Some payload \<Rightarrow> payload
      | None \<Rightarrow> Captured ty pre v post)"
| "spec_payload (NamedTuple ty ds) = NamedTuple ty (map spec_payload ds)"
| "spec_payload (Sequence ty ds) = Sequence ty (map spec_payload ds)"
| "spec_payload (DataClass ty fs) = DataClass ty (map (\<lambda>f. (fst f, spec_payload (snd f))) fs)"
| "spec_payload (Leaf x) = Leaf x"

text \<open>The extracted states: one per marker, in the order of the walk.\<close>

fun spec_states :: "'a data \<Rightarrow> sampler_states list" where
  "spec_states (Mapping ty kvs) = concat (map (\<lambda>kv. spec_states (snd kv)) kvs)"
| "spec_states (Captured ty pre v post) = [unwrapped_state v]"
| "spec_states (NamedTuple ty ds) = concat (map spec_states ds)"
| "spec_states (Sequence ty ds) = concat (map spec_states ds)"
| "spec_states (DataClass ty fs) = concat (map (\<lambda>f. spec_states (snd f)) fs)"
| "spec_states (Leaf x) = []"

text \<open>The batch with the \<^verbatim>\<open>"id"\<close> entry removed from the snapshot of every marker.\<close>

fun input_after :: "'a data \<Rightarrow> 'a data" where
  "input_after (Mapping ty kvs) = Mapping ty (map (\<lambda>kv. (fst kv, input_after (snd kv))) kvs)"
| "input_after (Captured ty pre v post) = Captured ty pre (without_id v) post"
| "input_after (NamedTuple ty ds) = NamedTuple ty (map input_after ds)"
| "input_after (Sequence ty ds) = Sequence ty (map input_after ds)"
| "input_after (DataClass ty fs) = DataClass ty (map (\<lambda>f. (fst f, input_after (snd f))) fs)"
| "input_after (Leaf x) = Leaf x"

section \<open>Properties of FastForwardSampler\<close>

subsection \<open>Whole passes\<close>

lemma exhaust_NormalLoop:
  "exhaust wid (NormalLoop xs) s = (xs, None, s\<lparr>current_iteration := 0\<rparr>)"
proof (induction xs arbitrary: s)
  case Nil
  show ?case by (simp add: exhaust.simps [of wid "NormalLoop []"])
next
  case (Cons x xs)
  show ?case by (simp add: exhaust.simps [of wid "NormalLoop (x # xs)"] Cons.IH)
qed

lemma reload_cached_None: "cached_state_dict s = None \<Longrightarrow> reload_cached wid s = Returned s"
  by (simp add: reload_cached_def)

text \<open>
  With no cached state pending, the restart loop drops the items whose index is below the
  counter and yields all the others.
\<close>

lemma exhaust_RestartLoop:
  "cached_state_dict s = None \<Longrightarrow>
   exhaust wid (RestartLoop i xs) s =
     (drop (nat (current_iteration s - int i)) xs, None, s\<lparr>current_iteration := 0\<rparr>)"
proof (induction xs arbitrary: i s)
  case Nil
  show ?case by (simp add: exhaust.simps [of wid "RestartLoop i []"])
next
  case (Cons x xs)
  show ?case
  proof (cases "current_iteration s \<le> int i")
    case True
    with Cons.prems show ?thesis
      by (simp add: exhaust.simps [of wid "RestartLoop i (x # xs)"] reload_cached_None Cons.IH)
  next
    case False
    then have n: "nat (current_iteration s - int i) = Suc (nat (current_iteration s - int (Suc i)))"
      by simp
    from False Cons.prems
    have "exhaust wid (RestartLoop i (x # xs)) s = exhaust wid (RestartLoop (Suc i) xs) s"
      by (simp add: exhaust.simps [of wid "RestartLoop i (x # xs)"]
          exhaust.simps [of wid "RestartLoop (Suc i) xs"] reload_cached_None)
    with Cons.IH [OF Cons.prems, of "Suc i"] n show ?thesis by simp
  qed
qed

lemma exhaust_Start:
  "exhaust wid Start s =
     (if \<not> restarting s then exhaust wid (NormalLoop (sampler s)) s
      else exhaust wid (RestartLoop 0 (sampler s)) s)"
  by (simp add: exhaust.simps [of wid Start] exhaust.simps [of wid "NormalLoop (sampler s)"]
      exhaust.simps [of wid "RestartLoop 0 (sampler s)"])

lemma iterate_normal:
  "\<not> restarting s \<Longrightarrow> iterate wid s = (sampler s, None, s\<lparr>current_iteration := 0\<rparr>)"
  by (simp add: iterate_def exhaust_Start exhaust_NormalLoop)

lemma iterate_restart:
  "restarting s \<Longrightarrow> cached_state_dict s = None \<Longrightarrow>
   iterate wid s =
     (drop (nat (current_iteration s)) (sampler s), None, s\<lparr>current_iteration := 0\<rparr>)"
  by (simp add: iterate_def exhaust_Start exhaust_RestartLoop)

lemma iterate_from_zero:
  assumes "current_iteration s = 0" and "cached_state_dict s = None"
  shows "items (iterate wid s) = sampler s"
proof (cases "restarting s")
  case True
  from iterate_restart [OF True assms(2), of wid] assms(1) show ?thesis by (simp add: items_def)
next
  case False
  then show ?thesis by (simp add: iterate_normal items_def)
qed

text \<open>
  The guarded reload inside the restart loop never raises: the lookup it makes is of a key
  it has just found.
\<close>

lemma reload_cached_returns:
  "\<exists>s'. reload_cached wid s = Returned s' \<and> sampler s' = sampler s"
  by (auto simp: reload_cached_def load_state_dict_def split: option.splits)

lemma exhaust_RestartLoop_resets:
  "raised (exhaust wid (RestartLoop i xs) s) = None \<and>
   current_iteration (after (exhaust wid (RestartLoop i xs) s)) = 0 \<and>
   sampler (after (exhaust wid (RestartLoop i xs) s)) = sampler s"
proof (induction xs arbitrary: i s)
  case Nil
  show ?case by (simp add: exhaust.simps [of wid "RestartLoop i []"] raised_def after_def)
next
  case (Cons x xs)
  obtain s1 where r: "reload_cached wid s = Returned s1" and smp: "sampler s1 = sampler s"
    using reload_cached_returns [of wid s] by blast
  show ?case
  proof (cases "current_iteration s1 \<le> int i")
    case True
    define s2 where "s2 = s1\<lparr>current_iteration := current_iteration s1 + 1\<rparr>"
    obtain got e s3 where ex: "exhaust wid (RestartLoop (Suc i) xs) s2 = (got, e, s3)"
      by (cases "exhaust wid (RestartLoop (Suc i) xs) s2") auto
    from True r have "exhaust wid (RestartLoop i (x # xs)) s = (x # got, e, s3)"
      by (simp add: exhaust.simps [of wid "RestartLoop i (x # xs)"] ex s2_def [symmetric])
    with Cons.IH [of "Suc i" s2] ex smp show ?thesis
      by (simp add: raised_def after_def s2_def)
  next
    case False
    with r have "exhaust wid (RestartLoop i (x # xs)) s = exhaust wid (RestartLoop (Suc i) xs) s1"
      by (simp add: exhaust.simps [of wid "RestartLoop i (x # xs)"]
          exhaust.simps [of wid "RestartLoop (Suc i) xs"])
    with Cons.IH [of "Suc i" s1] smp show ?thesis by simp
  qed
qed

lemma iterate_resets:
  "raised (iterate wid s) = None \<and> current_iteration (after (iterate wid s)) = 0 \<and>
   sampler (after (iterate wid s)) = sampler s"
proof (cases "restarting s")
  case True
  with exhaust_RestartLoop_resets [of wid 0 "sampler s" s] show ?thesis
    by (simp add: iterate_def exhaust_Start)
next
  case False
  then show ?thesis by (simp add: iterate_normal raised_def after_def)
qed

subsection \<open>Partial passes\<close>

lemma consume_NormalLoop:
  "k \<le> length xs \<Longrightarrow>
   consume k wid (NormalLoop xs) s =
     (take k xs, NormalLoop (drop k xs), s\<lparr>current_iteration := current_iteration s + int k\<rparr>)"
proof (induction k arbitrary: xs s)
  case 0
  show ?case by simp
next
  case (Suc k)
  then obtain x rest where xs: "xs = x # rest" by (cases xs) auto
  with Suc.prems have "k \<le> length rest" by simp
  from Suc.IH [OF this] xs show ?case by simp
qed

lemma consume_Start_normal:
  assumes "\<not> restarting s" and "k \<le> length (sampler s)"
  shows "consume k wid Start s =
     (take k (sampler s),
      (if k = 0 then Start else NormalLoop (drop k (sampler s))),
      s\<lparr>current_iteration := current_iteration s + int k\<rparr>)"
proof (cases k)
  case 0
  then show ?thesis by simp
next
  case (Suc j)
  with assms obtain x rest where xs: "sampler s = x # rest" by (cases "sampler s") auto
  with assms Suc have "j \<le> length rest" by simp
  from consume_NormalLoop [OF this] xs Suc assms show ?thesis by simp
qed

subsection \<open>Snapshot and restore\<close>

lemma load_state_dict_single:
  "load_state_dict [wid \<mapsto> n] wi wid s =
     Returned (s\<lparr>current_iteration := n, restarting := 0 < n\<rparr>)"
  by (simp add: load_state_dict_def)

text \<open>
  Restoring a snapshot into any sampler sets its counter to the count the snapshot
  reports, which is the source's counter scaled by its batch size.
\<close>

lemma roundtrip_general:
  "load_state_dict (state_dict wid None s) False wid fresh =
     Returned (fresh\<lparr>current_iteration := compute_current_iteration None s,
                     restarting := 0 < compute_current_iteration None s\<rparr>)"
  by (simp add: state_dict_def load_state_dict_single)

text \<open>
  C1, as stated, fails for a sampler on which \<^verbatim>\<open>setup\<close> has set a batch size: its
  \<^verbatim>\<open>state_dict()\<close> reports the counter times the batch size, and the restored sampler
  drops that many items. With the batch size 2, one item of a, b, c, d, e is consumed;
  the snapshot reports 2, and the fresh sampler yields c, d, e: the item b is lost.
\<close>

theorem fast_forward_counterexample:
  "fst (consume 1 0 Start (setup_sampler (Some 2) (init ''abcde''))) = ''a'' \<and>
   state_dict 0 None (snd (snd (consume 1 0 Start (setup_sampler (Some 2) (init ''abcde''))))) =
     [0 \<mapsto> 2] \<and>
   load_state_dict [0 \<mapsto> 2] False 0 (init ''abcde'') =
     Returned ((init ''abcde'')\<lparr>current_iteration := 2, restarting := True\<rparr>) \<and>
   items (iterate 0 ((init ''abcde'')\<lparr>current_iteration := 2, restarting := True\<rparr>)) = ''cde'' \<and>
   ''cde'' \<noteq> drop 1 ''abcde''"
  by (simp add: init_def setup_sampler_def state_dict_def compute_current_iteration_def
      load_state_dict_def iterate_def exhaust.simps reload_cached_def items_def)

text \<open>
  C1, amended. A sampler is constructed around a producer of the items \<open>xs\<close>, with no
  batch size in effect (none set, or one of 0 or 1), and yields \<open>k < length xs\<close> of them;
  its \<^verbatim>\<open>state_dict()\<close> is then loaded into a sampler freshly constructed around the same
  producer, under the same worker id. The first sampler has yielded the first \<open>k\<close> items
  of \<open>xs\<close>, the load succeeds, and a pass over the fresh sampler yields exactly the
  remaining items, in order: together the two give \<open>xs\<close> with no duplicate and no gap.
\<close>

theorem fast_forward_correctness:
  assumes "k < length xs"
    and "bs = None \<or> bs = Some 0 \<or> bs = Some 1"
  shows "\<exists>s2.
     fst (consume k wid Start (setup_sampler bs (init xs))) = take k xs \<and>
     load_state_dict
        (state_dict wid None (snd (snd (consume k wid Start (setup_sampler bs (init xs))))))
        False wid (init xs) = Returned s2 \<and>
     items (iterate wid s2) = drop k xs \<and>
     raised (iterate wid s2) = None \<and>
     fst (consume k wid Start (setup_sampler bs (init xs))) @ items (iterate wid s2) = xs"
proof -
  let ?s0 = "setup_sampler bs (init xs)"
  have nr: "\<not> restarting ?s0" and smp: "sampler ?s0 = xs"
    by (simp_all add: init_def setup_sampler_def)
  from assms have le: "k \<le> length (sampler ?s0)" by (simp add: smp)
  note c = consume_Start_normal [OF nr le, of wid]
  have sd: "state_dict wid None (snd (snd (consume k wid Start ?s0))) = [wid \<mapsto> int k]"
    unfolding c using assms(2)
    by (auto simp: state_dict_def compute_current_iteration_def init_def setup_sampler_def)
  define s2 where "s2 = (init xs)\<lparr>current_iteration := int k, restarting := 0 < int k\<rparr>"
  have l: "load_state_dict [wid \<mapsto> int k] False wid (init xs) = Returned s2"
    by (simp add: load_state_dict_single s2_def)
  have it: "iterate wid s2 = (drop k xs, None, s2\<lparr>current_iteration := 0\<rparr>)"
  proof (cases "k = 0")
    case True
    then have "\<not> restarting s2" by (simp add: s2_def)
    from iterate_normal [OF this, of wid] True show ?thesis by (simp add: s2_def init_def)
  next
    case False
    then have "restarting s2" "cached_state_dict s2 = None" by (simp_all add: s2_def init_def)
    from iterate_restart [OF this, of wid] show ?thesis by (simp add: s2_def init_def)
  qed
  show ?thesis
    unfolding sd by (rule exI [of _ s2]) (simp add: c l it items_def raised_def smp)
qed

text \<open>
  The scenario of the specification: of the items a, b, c, d, e three are consumed; the
  restored sampler yields d, e.
\<close>

theorem fast_forward_correctness_witness:
  "(3::nat) < length ''abcde'' \<and>
   fst (consume 3 0 Start (setup_sampler None (init ''abcde''))) = ''abc'' \<and>
   (\<exists>s2. load_state_dict
            (state_dict 0 None (snd (snd (consume 3 0 Start (setup_sampler None (init ''abcde''))))))
            False 0 (init ''abcde'') = Returned s2 \<and>
         items (iterate 0 s2) = ''de'')"
  using fast_forward_correctness [of 3 "''abcde''" None 0] by auto

text \<open>
  C2, as stated, fails where the state dict has no entry for the current worker: the
  lookup that decides \<^verbatim>\<open>restarting\<close> raises \<^verbatim>\<open>KeyError\<close>, after the cache has been
  assigned. Here the state has entries for the workers 1 and 2 and is loaded under the
  worker id 0.
\<close>

theorem deferred_restore_counterexample:
  "card (dom [1 \<mapsto> 2, (2::nat) \<mapsto> (5::int)]) = 2 \<and>
   load_state_dict [1 \<mapsto> 2, 2 \<mapsto> 5] False 0 (init ''abc'') =
     Raised KeyError ((init ''abc'')\<lparr>cached_state_dict := Some [1 \<mapsto> 2, 2 \<mapsto> 5]\<rparr>)"
  by (simp add: load_state_dict_def)

text \<open>
  C2, amended. A state dict \<open>sd\<close> with more than one entry, one of them for the current
  worker \<open>wid\<close>, loaded with \<^verbatim>\<open>workers_initialized\<close> false: the whole of \<open>sd\<close> becomes
  the cache, the counter is left alone, and \<^verbatim>\<open>restarting\<close> is set to whether the entry
  of \<open>wid\<close> is positive. Later, in the restart loop, an item met while \<open>sd\<close> is cached
  and has an entry \<open>m\<close> for the then current worker \<open>w\<close> is treated exactly as it is by
  a sampler whose counter is already \<open>m\<close>, whose flag is \<open>0 < m\<close> and whose cache is
  empty: the entry is applied and the cache cleared before the position filter sees the
  item.
\<close>

theorem deferred_restore:
  assumes "1 < card (dom sd)" and "sd wid = Some n"
  shows "load_state_dict sd False wid s =
           Returned (s\<lparr>cached_state_dict := Some sd, restarting := 0 < n\<rparr>) \<and>
         (cached_state_dict s1 = Some sd \<and> sd w = Some m \<longrightarrow>
            restart_next w i (batch # rest) s1 =
              restart_next w i (batch # rest)
                (s1\<lparr>current_iteration := m, restarting := 0 < m, cached_state_dict := None\<rparr>))"
  using assms
  by (auto simp: load_state_dict_def reload_cached_def)

text \<open>
  Two workers, with counts 2 and 5, restored in the main process (worker id 0); the
  sampler then iterates in worker 1, which drops the items of index 0 to 4 and yields the
  sixth.
\<close>

theorem deferred_restore_witness:
  "1 < card (dom [0 \<mapsto> 2, (1::nat) \<mapsto> (5::int)]) \<and>
   load_state_dict [0 \<mapsto> 2, 1 \<mapsto> 5] False 0 (init ''abcdefg'') =
     Returned ((init ''abcdefg'')
                 \<lparr>cached_state_dict := Some [0 \<mapsto> 2, 1 \<mapsto> 5], restarting := True\<rparr>) \<and>
   restart_next 1 0 ''abcdefg''
       ((init ''abcdefg'')\<lparr>cached_state_dict := Some [0 \<mapsto> 2, 1 \<mapsto> 5], restarting := True\<rparr>) =
     (Yield CHR ''f'', RestartLoop 6 ''g'',
      (init ''abcdefg'')\<lparr>cached_state_dict := None, restarting := True, current_iteration := 6\<rparr>)"
proof -
  let ?sd = "[0 \<mapsto> 2, (1::nat) \<mapsto> (5::int)]"
  let ?s1 = "(init ''abcdefg'')\<lparr>cached_state_dict := Some ?sd, restarting := True\<rparr>"
  have h1: "1 < card (dom ?sd)" by simp
  have h2: "?sd 0 = Some 2" by simp
  have h3: "cached_state_dict ?s1 = Some ?sd \<and> ?sd 1 = Some 5" by simp
  note t = deferred_restore [OF h1 h2, of "init ''abcdefg''" ?s1 1 5 0 "CHR ''a''" "''bcdefg''"]
  have a: "load_state_dict ?sd False 0 (init ''abcdefg'') = Returned ?s1"
    using t [THEN conjunct1] by (simp only: zero_less_numeral)
  have "restart_next 1 0 ''abcdefg'' ?s1 =
      restart_next 1 0 ''abcdefg''
        (?s1\<lparr>current_iteration := 5, restarting := 0 < (5::int), cached_state_dict := None\<rparr>)"
    using t [THEN conjunct2, THEN mp, OF h3] .
  also have "\<dots> = (Yield CHR ''f'', RestartLoop 6 ''g'',
      (init ''abcdefg'')\<lparr>cached_state_dict := None, restarting := True, current_iteration := 6\<rparr>)"
    by (simp add: init_def reload_cached_def eval_nat_numeral)
  finally show ?thesis using h1 a by blast
qed

text \<open>
  C3, as stated, fails for a sampler on which a batch size has been set: its snapshot
  reports the counter times the batch size, and that product is what the fresh sampler's
  counter becomes. Here the batch size is 2 and three items have been yielded.
\<close>

theorem roundtrip_counterexample:
  "current_iteration
     (snd (snd (consume 3 0 Start (setup_sampler (Some 2) (init ''abcdefgh''))))) = 3 \<and>
   load_state_dict
     (state_dict 0 None (snd (snd (consume 3 0 Start (setup_sampler (Some 2) (init ''abcdefgh''))))))
     False 0 (init ''abcdefgh'')
   = Returned ((init ''abcdefgh'')\<lparr>current_iteration := 6, restarting := True\<rparr>)"
  by (simp add: init_def setup_sampler_def state_dict_def compute_current_iteration_def
      load_state_dict_def eval_nat_numeral)

text \<open>
  C3, amended. For every sampler whose batch size does not scale the snapshot (it is
  unset, zero or one), loading its \<^verbatim>\<open>state_dict()\<close> into a freshly constructed sampler
  under the same worker id succeeds, leaves the fresh counter equal to the source's
  counter, and sets \<^verbatim>\<open>restarting\<close> to whether that counter is positive.
\<close>

theorem roundtrip_without_multiplier:
  assumes "dataloader_batch_size s = None \<or> dataloader_batch_size s = Some 0
           \<or> dataloader_batch_size s = Some 1"
  shows "load_state_dict (state_dict wid None s) False wid (init xs) =
     Returned ((init xs)\<lparr>current_iteration := current_iteration s,
                         restarting := 0 < current_iteration s\<rparr>)"
  using assms by (auto simp: roundtrip_general compute_current_iteration_def)

theorem roundtrip_without_multiplier_witness:
  "dataloader_batch_size (snd (snd (consume 3 0 Start (init ''abcde'')))) = None \<and>
   current_iteration (snd (snd (consume 3 0 Start (init ''abcde'')))) = 3 \<and>
   load_state_dict (state_dict 0 None (snd (snd (consume 3 0 Start (init ''abcde'')))))
      False 0 (init ''abcde'') =
     Returned ((init ''abcde'')\<lparr>current_iteration := 3, restarting := True\<rparr>)"
proof -
  have d: "dataloader_batch_size (snd (snd (consume 3 0 Start (init ''abcde'')))) = None"
    and c: "current_iteration (snd (snd (consume 3 0 Start (init ''abcde'')))) = 3"
    by (simp_all add: init_def eval_nat_numeral)
  from d have "dataloader_batch_size (snd (snd (consume 3 0 Start (init ''abcde'')))) = None \<or>
      dataloader_batch_size (snd (snd (consume 3 0 Start (init ''abcde'')))) = Some 0 \<or>
      dataloader_batch_size (snd (snd (consume 3 0 Start (init ''abcde'')))) = Some 1" by simp
  from roundtrip_without_multiplier [OF this, of 0 "''abcde''"] d c show ?thesis by simp
qed

text \<open>
  C4, as stated, fails after a pass in restart mode: the pass resets the counter and
  leaves \<^verbatim>\<open>restarting\<close> as it is. The sampler here is the one that loading the state
  \<^verbatim>\<open>{0: {"current_iteration": 1}}\<close> gives; after its pass over a, b it is still
  flagged as restarting.
\<close>

theorem exhaustion_counterexample:
  "load_state_dict [0 \<mapsto> 1] False 0 (init ''ab'') =
     Returned ((init ''ab'')\<lparr>current_iteration := 1, restarting := True\<rparr>) \<and>
   items (iterate 0 ((init ''ab'')\<lparr>current_iteration := 1, restarting := True\<rparr>)) = ''b'' \<and>
   raised (iterate 0 ((init ''ab'')\<lparr>current_iteration := 1, restarting := True\<rparr>)) = None \<and>
   restarting (after (iterate 0 ((init ''ab'')\<lparr>current_iteration := 1, restarting := True\<rparr>)))"
  by (simp add: load_state_dict_def init_def iterate_def exhaust.simps reload_cached_def
      items_def raised_def after_def)

text \<open>
  C4, amended. A pass that runs the wrapped producer to exhaustion ends without an
  exception and with the counter at zero, in either mode. The pass does not clear
  \<^verbatim>\<open>restarting\<close>: with no cached state pending the flag is after the pass what it was
  before. With the counter at zero and no cached state, the next pass yields every item
  of the producer, whatever the flag.
\<close>

theorem exhaustion_resets_counter:
  "raised (iterate wid s) = None \<and>
   current_iteration (after (iterate wid s)) = 0 \<and>
   (cached_state_dict s = None \<longrightarrow>
      restarting (after (iterate wid s)) = restarting s \<and>
      items (iterate w (after (iterate wid s))) = sampler s)"
proof -
  have "restarting (after (iterate wid s)) = restarting s \<and>
        items (iterate w (after (iterate wid s))) = sampler s"
    if c: "cached_state_dict s = None"
  proof -
    have a: "after (iterate wid s) = s\<lparr>current_iteration := 0\<rparr>"
    proof (cases "restarting s")
      case True
      from iterate_restart [OF True c, of wid] show ?thesis by (simp add: after_def)
    next
      case False
      then show ?thesis by (simp add: iterate_normal after_def)
    qed
    have "items (iterate w (s\<lparr>current_iteration := 0\<rparr>)) = sampler s"
      using iterate_from_zero [of "s\<lparr>current_iteration := 0\<rparr>" w] c by simp
    with a show ?thesis by simp
  qed
  with iterate_resets [of wid s] show ?thesis by blast
qed

theorem exhaustion_resets_counter_witness:
  "cached_state_dict ((init ''ab'')\<lparr>current_iteration := 1, restarting := True\<rparr>) = None \<and>
   current_iteration
     (after (iterate 0 ((init ''ab'')\<lparr>current_iteration := 1, restarting := True\<rparr>))) = 0 \<and>
   restarting (after (iterate 0 ((init ''ab'')\<lparr>current_iteration := 1, restarting := True\<rparr>))) \<and>
   items (iterate 0
     (after (iterate 0 ((init ''ab'')\<lparr>current_iteration := 1, restarting := True\<rparr>)))) = ''ab''"
  using exhaustion_resets_counter
    [of 0 "(init ''ab'')\<lparr>current_iteration := 1, restarting := True\<rparr>" 0]
  by (simp add: init_def)

text \<open>
  C9, as stated, fails for the batch size zero: \<^verbatim>\<open>if self._dataloader_batch_size:\<close>
  is false for it, so the count is reported unscaled. Three items have been yielded, and
  the snapshot reports 3, not 3 times 0.
\<close>

theorem multiplier_counterexample:
  "dataloader_batch_size
     (snd (snd (consume 3 0 Start (setup_sampler (Some 0) (init ''abcde''))))) = Some 0 \<and>
   current_iteration
     (snd (snd (consume 3 0 Start (setup_sampler (Some 0) (init ''abcde''))))) = 3 \<and>
   state_dict 0 None (snd (snd (consume 3 0 Start (setup_sampler (Some 0) (init ''abcde''))))) 0
     = Some 3 \<and>
   (3::int) \<noteq> 3 * 0"
  by (simp add: init_def setup_sampler_def state_dict_def compute_current_iteration_def
      eval_nat_numeral)

text \<open>
  C9, amended. With a batch size \<open>m\<close> other than zero set by \<^verbatim>\<open>setup\<close> and the
  counter at \<open>c\<close>, \<^verbatim>\<open>state_dict()\<close> reports \<open>c * m\<close>; with a count \<open>n\<close> supplied it
  reports \<open>n * m\<close>, whatever the counter; with no batch size set, or the batch size
  zero, it reports \<open>n\<close>, and the counter itself when no count is supplied either.
\<close>

theorem multiplier_scaling:
  assumes "m \<noteq> 0"
  shows "state_dict wid None (setup_sampler (Some m) s) = [wid \<mapsto> current_iteration s * m] \<and>
         state_dict wid (Some n) (setup_sampler (Some m) s) = [wid \<mapsto> n * m] \<and>
         state_dict wid (Some n) (setup_sampler None s) = [wid \<mapsto> n] \<and>
         state_dict wid None (setup_sampler None s) = [wid \<mapsto> current_iteration s] \<and>
         state_dict wid (Some n) (setup_sampler (Some 0) s) = [wid \<mapsto> n] \<and>
         state_dict wid None (setup_sampler (Some 0) s) = [wid \<mapsto> current_iteration s]"
  using assms by (simp add: setup_sampler_def state_dict_def compute_current_iteration_def)

theorem multiplier_scaling_witness:
  "(4::int) \<noteq> 0 \<and>
   state_dict 0 None
     (setup_sampler (Some 4) (snd (snd (consume 3 0 Start (init ''abcde''))))) = [0 \<mapsto> 12] \<and>
   state_dict 0 (Some 2)
     (setup_sampler (Some 4) (snd (snd (consume 3 0 Start (init ''abcde''))))) = [0 \<mapsto> 8] \<and>
   state_dict 0 (Some 2)
     (setup_sampler None (snd (snd (consume 3 0 Start (init ''abcde''))))) = [0 \<mapsto> 2]"
proof -
  have c: "current_iteration (snd (snd (consume 3 0 Start (init ''abcde'')))) = 3"
    by (simp add: init_def eval_nat_numeral)
  have "(4::int) \<noteq> 0" by simp
  from multiplier_scaling [OF this, of 0 "snd (snd (consume 3 0 Start (init ''abcde'')))" 2] c
  show ?thesis by simp
qed

section \<open>Attribute access\<close>

text \<open>
  C10. Neither \<^verbatim>\<open>__getattr__\<close> nor an attribute access on a FastForwardSampler
  raises \<^verbatim>\<open>AttributeError\<close>. For a name that is not set on the instance,
  \<^verbatim>\<open>__getattr__\<close> delegates to the wrapped sampler: it evaluates to \<^verbatim>\<open>None\<close> where the
  wrapped sampler lacks the name too (its lookup raises \<^verbatim>\<open>AttributeError\<close>), and to the
  wrapped sampler's value where it has it. An access to a name the class does not define
  is answered by \<^verbatim>\<open>__getattr__\<close>.
\<close>

theorem attribute_access_total:
  "getattr_FastForwardSampler sampler_attr s key \<noteq> Inl AttributeError \<and>
   attribute_access class_attr sampler_attr s key \<noteq> Inl AttributeError \<and>
   (instance_dict s key = None \<and> sampler_attr key = Inl AttributeError \<longrightarrow>
      getattr_FastForwardSampler sampler_attr s key = Inr PyNone) \<and>
   (instance_dict s key = None \<and> sampler_attr key = Inr v \<longrightarrow>
      getattr_FastForwardSampler sampler_attr s key = Inr v) \<and>
   (class_attr key = None \<longrightarrow>
      attribute_access class_attr sampler_attr s key =
        getattr_FastForwardSampler sampler_attr s key)"
  by (auto simp: attribute_access_def getattr_FastForwardSampler_def getattr_default_None_def
      split: option.splits sum.splits)

theorem attribute_access_total_witness:
  "instance_dict (init ''abc'') ''drop_last'' = None \<and>
   attribute_access Map.empty (\<lambda>k. if k = ''batch_size'' then Inr (PyInt 4) else Inl AttributeError)
       (init ''abc'') ''drop_last'' = Inr PyNone \<and>
   attribute_access Map.empty (\<lambda>k. if k = ''batch_size'' then Inr (PyInt 4) else Inl AttributeError)
       (init ''abc'') ''batch_size'' = Inr (PyInt 4)"
proof -
  let ?sa = "\<lambda>k. if k = ''batch_size'' then Inr (PyInt 4) else
                 (Inl AttributeError :: error + char pyvalue)"
  have i1: "instance_dict (init ''abc'') ''drop_last'' = None"
    and i2: "instance_dict (init ''abc'') ''batch_size'' = None"
    by (simp_all add: instance_dict_def)
  from attribute_access_total [of ?sa "init ''abc''" "''drop_last''" Map.empty] i1
  have a: "attribute_access Map.empty ?sa (init ''abc'') ''drop_last'' = Inr PyNone" by simp
  from attribute_access_total [of ?sa "init ''abc''" "''batch_size''" Map.empty "PyInt 4"] i2
  have b: "attribute_access Map.empty ?sa (init ''abc'') ''batch_size'' = Inr (PyInt 4)" by simp
  from i1 a b show ?thesis by blast
qed

section \<open>The worker cycle\<close>

subsection \<open>The loops over the cursor end\<close>

text \<open>
  On a cursor inside its cycle, advancing until an index of the cycle has been returned
  ends, with the cursor one past that index.
\<close>

lemma advance_until_step:
  "0 < n \<Longrightarrow> int pos \<noteq> t \<Longrightarrow> advance_until n t pos = advance_until n t ((pos + 1) mod n)"
  by (subst advance_until.simps) (simp add: cycle_next_def)

lemma advance_until_hit:
  "0 < n \<Longrightarrow> advance_until n (int pos) pos = Some (Inr ((pos + 1) mod n))"
  by (subst advance_until.simps) (simp add: cycle_next_def)

lemma advance_until_ahead:
  "pos \<le> T \<Longrightarrow> T < n \<Longrightarrow> advance_until n (int T) pos = Some (Inr ((T + 1) mod n))"
proof (induction "T - pos" arbitrary: pos)
  case 0
  then have "pos = T" by simp
  with 0 show ?case by (simp add: advance_until_hit)
next
  case (Suc d)
  then have lt: "pos < T" and n: "0 < n" by simp_all
  with Suc.prems have m: "(pos + 1) mod n = pos + 1" by simp
  from lt have "int pos \<noteq> int T" by simp
  from advance_until_step [OF n this] m
  have "advance_until n (int T) pos = advance_until n (int T) (pos + 1)" by simp
  moreover from Suc lt have "advance_until n (int T) (pos + 1) = Some (Inr ((T + 1) mod n))"
    by (intro Suc.hyps) simp_all
  ultimately show ?case by simp
qed

lemma advance_until_behind:
  "T < pos \<Longrightarrow> pos < n \<Longrightarrow> advance_until n (int T) pos = Some (Inr ((T + 1) mod n))"
proof (induction "n - pos" arbitrary: pos)
  case 0
  then show ?case by simp
next
  case (Suc d)
  then have n: "0 < n" and ne: "int pos \<noteq> int T" by simp_all
  note st = advance_until_step [OF n ne]
  show ?case
  proof (cases "pos + 1 = n")
    case True
    then have "(pos + 1) mod n = 0" by simp
    with st have "advance_until n (int T) pos = advance_until n (int T) 0" by simp
    also from Suc.prems have "\<dots> = Some (Inr ((T + 1) mod n))"
      by (intro advance_until_ahead) simp_all
    finally show ?thesis .
  next
    case False
    with Suc.prems have lt: "pos + 1 < n" by simp
    then have "(pos + 1) mod n = pos + 1" by simp
    with st have "advance_until n (int T) pos = advance_until n (int T) (pos + 1)" by simp
    also from Suc lt have "\<dots> = Some (Inr ((T + 1) mod n))"
      by (intro Suc.hyps) simp_all
    finally show ?thesis .
  qed
qed

lemma advance_until_returns:
  assumes "pos < n" and "0 \<le> t" and "t < int n"
  shows "advance_until n t pos = Some (Inr ((nat t + 1) mod n))"
proof -
  from assms have T: "nat t < n" and t: "t = int (nat t)" by simp_all
  show ?thesis
  proof (cases "pos \<le> nat t")
    case True
    from advance_until_ahead [OF True T] t show ?thesis by simp
  next
    case False
    then have "nat t < pos" by simp
    from advance_until_behind [OF this assms(1)] t show ?thesis by simp
  qed
qed

lemma advance_times_returns:
  "pos < n \<Longrightarrow> advance_times k n pos = Inr ((pos + k) mod n)"
proof (induction k arbitrary: pos)
  case 0
  then show ?case by simp
next
  case (Suc k)
  then have "(pos + 1) mod n < n" by simp
  from Suc.IH [OF this] Suc.prems show ?case
    by (simp add: cycle_next_def mod_simps)
qed

text \<open>
  On a well-formed multiprocessing iterator the bookkeeping returns, records the worker
  before the one the cursor points at, and leaves the cursor where it was.
\<close>

lemma fetch_previous_worker_returns:
  assumes "worker_queue_idx_cycle m < num_workers m"
  shows "fetch_previous_worker_state_dict (MultiProcessing m) out =
     Some (Returned (MultiProcessing m,
       out @ [[''num_workers'' \<mapsto> VInt (int (num_workers m)),
               ''previous_worker'' \<mapsto>
                  VInt ((int (worker_queue_idx_cycle m) - 1) mod int (num_workers m))]]))"
proof -
  let ?n = "num_workers m" and ?p = "worker_queue_idx_cycle m"
  let ?pw = "(int ?p - 1) mod int ?n"
  from assms have n: "0 < ?n" by simp
  have c: "cycle_next ?n ?p = Inr (?p, (?p + 1) mod ?n)" using n by (simp add: cycle_next_def)
  have nw: "int ?p mod int ?n = int ?p" using assms by simp
  have b: "0 \<le> ?pw" "?pw < int ?n" using n by simp_all
  have lt: "(?p + 1) mod ?n < ?n" using n by simp
  note a = advance_until_returns [OF lt b]
  have ret: "(nat ?pw + 1) mod ?n = ?p"
  proof -
    have "int ((nat ?pw + 1) mod ?n) = (?pw + 1) mod int ?n"
      using b by (simp add: zmod_int add.commute)
    also have "\<dots> = int ?p mod int ?n" by (simp add: mod_simps)
    also have "\<dots> = int ?p" by (rule nw)
    finally show ?thesis by simp
  qed
  have a': "advance_until ?n ?pw (Suc ?p mod ?n) = Some (Inr ?p)"
    using a ret by simp
  have m: "m\<lparr>worker_queue_idx_cycle := ?p\<rparr> = m" by simp
  show ?thesis
    by (simp add: fetch_previous_worker_state_dict_def c nw a' Let_def)
qed

text \<open>
  With matching worker counts, an integer \<^verbatim>\<open>previous_worker\<close> and a loader in the
  entry, the restore returns: the cursor is moved to 0, read once more, advanced
  \<^verbatim>\<open>previous_worker - 1\<close> times, and the reset is called with \<^verbatim>\<open>first_iter=True\<close>.
\<close>

lemma cycle_to_next_worker_returns:
  assumes "worker_queue_idx_cycle m < num_workers m"
    and "count < length sd"
    and "(sd ! count) ''num_workers'' = Some (VInt (int (num_workers m)))"
    and "(sd ! count) ''previous_worker'' = Some (VInt pw)"
    and "(sd ! count) ''loader'' = Some l"
  shows "cycle_to_next_worker (MultiProcessing m) sd count =
     Some (Returned (MultiProcessing
       (m\<lparr>worker_queue_idx_cycle := (1 + nat (pw - 1)) mod num_workers m,
          reset_calls := reset_calls m @ [(l, True)]\<rparr>)))"
proof -
  let ?n = "num_workers m"
  define p1 where "p1 = 1 mod ?n"
  from assms(1) have n: "0 < ?n" by simp
  have a: "advance_until ?n 0 (worker_queue_idx_cycle m) = Some (Inr p1)"
    using advance_until_returns [OF assms(1), of 0] n by (simp add: p1_def)
  have lt: "p1 < ?n" using n by (simp add: p1_def)
  have c: "(p1 + nat (pw - 1)) mod ?n = (1 + nat (pw - 1)) mod ?n"
    by (simp add: p1_def mod_simps)
  have b: "advance_times (nat (pw - 1)) ?n p1 = Inr ((1 + nat (pw - 1)) mod ?n)"
    using advance_times_returns [OF lt, of "nat (pw - 1)"] c by simp
  from assms(2-5) show ?thesis
    by (simp add: cycle_to_next_worker_def a b Let_def)
qed

subsection \<open>One worker\<close>

text \<open>
  C5, as stated, fails for the iterator a data loader with one worker has, which is a
  multiprocessing iterator: the bookkeeping records the worker 0 as the previous one,
  not \<^verbatim>\<open>None\<close>.
\<close>

theorem one_worker_counterexample:
  "fetch_previous_worker_state_dict
     (MultiProcessing \<lparr>num_workers = 1, worker_queue_idx_cycle = 0, reset_calls = []\<rparr>) [] =
   Some (Returned
     (MultiProcessing \<lparr>num_workers = 1, worker_queue_idx_cycle = 0, reset_calls = []\<rparr>,
      [[''num_workers'' \<mapsto> VInt 1, ''previous_worker'' \<mapsto> VInt 0]]))"
  by (simp add: fetch_previous_worker_state_dict_def cycle_next_def advance_until.simps)

text \<open>
  C5, amended. For an iterator that is not a multiprocessing iterator the bookkeeping
  records \<^verbatim>\<open>previous_worker = None\<close> (and the \<^verbatim>\<open>_num_workers\<close> attribute, 0 without
  one), and \<^verbatim>\<open>cycle_to_next_worker\<close> with an entry of the same worker count returns
  with the iterator as it was. For a multiprocessing iterator with one worker the
  bookkeeping records \<^verbatim>\<open>previous_worker = 0\<close> and leaves the cursor unchanged, and
  \<^verbatim>\<open>cycle_to_next_worker\<close> with that state and a loader leaves the cursor at its only
  position and calls the reset once.
\<close>

theorem one_worker_degeneracy:
  "fetch_previous_worker_state_dict (OtherIterator nw) out =
     Some (Returned (OtherIterator nw,
       out @ [[''num_workers'' \<mapsto> VInt (case nw of None \<Rightarrow> 0 | Some n \<Rightarrow> int n),
               ''previous_worker'' \<mapsto> VNone]])) \<and>
   (count < length sd \<and> (sd ! count) ''num_workers'' = Some (VInt (int n)) \<longrightarrow>
      cycle_to_next_worker (OtherIterator (Some n)) sd count =
        Some (Returned (OtherIterator (Some n)))) \<and>
   (num_workers m = 1 \<and> worker_queue_idx_cycle m = 0 \<longrightarrow>
      fetch_previous_worker_state_dict (MultiProcessing m) out =
        Some (Returned (MultiProcessing m,
          out @ [[''num_workers'' \<mapsto> VInt 1, ''previous_worker'' \<mapsto> VInt 0]])) \<and>
      cycle_to_next_worker (MultiProcessing m)
          [[''num_workers'' \<mapsto> VInt 1, ''previous_worker'' \<mapsto> VInt 0, ''loader'' \<mapsto> l]] 0 =
        Some (Returned (MultiProcessing (m\<lparr>reset_calls := reset_calls m @ [(l, True)]\<rparr>))))"
  by (auto simp: fetch_previous_worker_state_dict_def cycle_to_next_worker_def cycle_next_def
      advance_until.simps)

theorem one_worker_degeneracy_witness:
  "fetch_previous_worker_state_dict (OtherIterator (Some 0)) ([] :: string entry list) =
     Some (Returned (OtherIterator (Some 0),
       [[''num_workers'' \<mapsto> VInt 0, ''previous_worker'' \<mapsto> VNone]])) \<and>
   cycle_to_next_worker (OtherIterator (Some 0))
       [[''num_workers'' \<mapsto> VInt 0, ''previous_worker'' \<mapsto> (VNone :: string val)]] 0 =
     Some (Returned (OtherIterator (Some 0))) \<and>
   fetch_previous_worker_state_dict
       (MultiProcessing \<lparr>num_workers = 1, worker_queue_idx_cycle = 0, reset_calls = []\<rparr>)
       ([] :: string entry list) =
     Some (Returned
       (MultiProcessing \<lparr>num_workers = 1, worker_queue_idx_cycle = 0, reset_calls = []\<rparr>,
        [[''num_workers'' \<mapsto> VInt 1, ''previous_worker'' \<mapsto> VInt 0]])) \<and>
   cycle_to_next_worker
       (MultiProcessing \<lparr>num_workers = 1, worker_queue_idx_cycle = 0, reset_calls = []\<rparr>)
       [[''num_workers'' \<mapsto> VInt 1, ''previous_worker'' \<mapsto> VInt 0,
         ''loader'' \<mapsto> VLoader ''dl'']] 0 =
     Some (Returned
       (MultiProcessing \<lparr>num_workers = 1, worker_queue_idx_cycle = 0,
                         reset_calls = [(VLoader ''dl'', True)]\<rparr>))"
proof -
  let ?e = "[''num_workers'' \<mapsto> VInt 0, ''previous_worker'' \<mapsto> (VNone :: string val)]"
  let ?m = "\<lparr>num_workers = 1, worker_queue_idx_cycle = 0,
             reset_calls = ([] :: (string val \<times> bool) list)\<rparr>"
  note t = one_worker_degeneracy [of "Some 0" "[] :: string entry list" 0 "[?e]" 0 ?m "VLoader ''dl''"]
  have h1: "0 < length [?e] \<and> ([?e] ! 0) ''num_workers'' = Some (VInt (int 0))" by simp
  have h2: "num_workers ?m = 1 \<and> worker_queue_idx_cycle ?m = 0" by simp
  from t [THEN conjunct1]
  have a: "fetch_previous_worker_state_dict (OtherIterator (Some 0)) ([] :: string entry list) =
     Some (Returned (OtherIterator (Some 0), [?e]))" by simp
  from t [THEN conjunct2, THEN conjunct1, THEN mp, OF h1]
  have b: "cycle_to_next_worker (OtherIterator (Some 0)) [?e] 0 =
     Some (Returned (OtherIterator (Some 0)))" .
  from t [THEN conjunct2, THEN conjunct2, THEN mp, OF h2]
  have c: "fetch_previous_worker_state_dict (MultiProcessing ?m) ([] :: string entry list) =
        Some (Returned (MultiProcessing ?m,
          [[''num_workers'' \<mapsto> VInt 1, ''previous_worker'' \<mapsto> VInt 0]])) \<and>
      cycle_to_next_worker (MultiProcessing ?m)
          [[''num_workers'' \<mapsto> VInt 1, ''previous_worker'' \<mapsto> VInt 0,
            ''loader'' \<mapsto> VLoader ''dl'']] 0 =
        Some (Returned (MultiProcessing (?m\<lparr>reset_calls := reset_calls ?m @ [(VLoader ''dl'', True)]\<rparr>)))"
    by simp
  from a b c show ?thesis by simp
qed

subsection \<open>Worker-count mismatch\<close>

text \<open>
  C6. For a multiprocessing iterator and a state entry whose \<^verbatim>\<open>num_workers\<close> differs
  from the iterator's worker count, \<^verbatim>\<open>cycle_to_next_worker\<close> raises
  (\<^verbatim>\<open>AssertionError\<close>), and the iterator is then as it was before the call: the cursor
  has not moved and the reset has not been called.
\<close>

theorem worker_count_mismatch_fatal:
  assumes "count < length sd"
    and "(sd ! count) ''num_workers'' = Some v"
    and "v \<noteq> VInt (int (num_workers m))"
  shows "cycle_to_next_worker (MultiProcessing m) sd count =
           Some (Raised AssertionError (MultiProcessing m))"
  using assms by (simp add: cycle_to_next_worker_def)

theorem worker_count_mismatch_fatal_witness:
  "cycle_to_next_worker
     (MultiProcessing \<lparr>num_workers = 2, worker_queue_idx_cycle = 1, reset_calls = []\<rparr>)
     [[''num_workers'' \<mapsto> VInt 4, ''previous_worker'' \<mapsto> VInt 3, ''loader'' \<mapsto> VLoader ''dl'']] 0 =
   Some (Raised AssertionError
     (MultiProcessing \<lparr>num_workers = 2, worker_queue_idx_cycle = 1, reset_calls = []\<rparr>))"
proof -
  let ?sd = "[[''num_workers'' \<mapsto> VInt 4, ''previous_worker'' \<mapsto> VInt 3,
               ''loader'' \<mapsto> VLoader ''dl'']]"
  let ?m = "\<lparr>num_workers = 2, worker_queue_idx_cycle = 1, reset_calls = ([] :: (string val \<times> bool) list)\<rparr>"
  have h1: "0 < length ?sd" by simp
  have h2: "(?sd ! 0) ''num_workers'' = Some (VInt 4)" by simp
  have h3: "VInt 4 \<noteq> (VInt (int (num_workers ?m)) :: string val)" by simp
  from worker_count_mismatch_fatal [OF h1 h2 h3] show ?thesis .
qed

section \<open>Restoring a data loader\<close>

text \<open>
  C8. For a data loader neither of whose \<^verbatim>\<open>sampler\<close> and \<^verbatim>\<open>batch_sampler\<close> is a
  FastForwardSampler, \<^verbatim>\<open>dataloader_load_state_dict\<close> returns without raising and
  leaves the data loader, its samplers included, as it was, whatever the state list
  holds.
\<close>

theorem restore_non_trackable_noop:
  assumes "\<not> is_FastForwardSampler (dl_sampler dataloader)"
    and "\<not> is_FastForwardSampler (dl_batch_sampler dataloader)"
  shows "dataloader_load_state_dict wid dataloader sd = Returned dataloader"
  using assms
  by (auto simp: dataloader_load_state_dict_def find_fast_forward_samplers_def
      is_FastForwardSampler_def split: sampler_object.splits)

text \<open>The state list here is empty: reading its first entry would raise.\<close>

theorem restore_non_trackable_noop_witness:
  "\<not> is_FastForwardSampler (OtherSampler ''RandomSampler'' :: (char, string) sampler_object) \<and>
   \<not> is_FastForwardSampler (NoSampler :: (char, string) sampler_object) \<and>
   dataloader_load_state_dict 0
     \<lparr>dl_sampler = OtherSampler ''RandomSampler'', dl_batch_sampler = NoSampler\<rparr>
     ([] :: unit entry list) =
   Returned \<lparr>dl_sampler = (OtherSampler ''RandomSampler'' :: (char, string) sampler_object),
             dl_batch_sampler = NoSampler\<rparr>"
proof -
  let ?dl = "\<lparr>dl_sampler = (OtherSampler ''RandomSampler'' :: (char, string) sampler_object),
              dl_batch_sampler = NoSampler\<rparr>"
  have h1: "\<not> is_FastForwardSampler (dl_sampler ?dl)"
    and h2: "\<not> is_FastForwardSampler (dl_batch_sampler ?dl)"
    by (simp_all add: is_FastForwardSampler_def)
  from restore_non_trackable_noop [OF h1 h2, of 0 "[] :: unit entry list"] h1 h2
  show ?thesis by simp
qed

section \<open>Stripping\<close>

subsection \<open>The loops, given what the walk does on each part\<close>

lemma sanetize_elements_loop:
  assumes "\<And>d acc. d \<in> set ds \<Longrightarrow>
             sanetize_batch_from_sampler_state d acc = Inr (f d, g d, acc @ h d)"
  shows "sanetize_elements ds acc = Inr (map f ds, map g ds, acc @ concat (map h ds))"
  using assms by (induction ds arbitrary: acc) simp_all

lemma sanetize_fields_loop:
  assumes "\<And>fd acc. fd \<in> set fs \<Longrightarrow>
             sanetize_batch_from_sampler_state (snd fd) acc = Inr (f (snd fd), g (snd fd), acc @ h (snd fd))"
  shows "sanetize_fields fs acc =
           Inr (map (\<lambda>fd. (fst fd, f (snd fd))) fs, map (\<lambda>fd. (fst fd, g (snd fd))) fs,
                acc @ concat (map (\<lambda>fd. h (snd fd)) fs))"
  using assms
proof (induction fs arbitrary: acc)
  case Nil
  show ?case by simp
next
  case (Cons fd fs)
  obtain n d where fd: "fd = (n, d)" by (cases fd)
  from Cons.prems [of fd acc] fd
  have 1: "sanetize_batch_from_sampler_state d acc = Inr (f d, g d, acc @ h d)" by simp
  have 2: "sanetize_fields fs (acc @ h d) =
           Inr (map (\<lambda>fd. (fst fd, f (snd fd))) fs, map (\<lambda>fd. (fst fd, g (snd fd))) fs,
                (acc @ h d) @ concat (map (\<lambda>fd. h (snd fd)) fs))"
    by (rule Cons.IH) (simp add: Cons.prems)
  from 1 2 fd show ?case by simp
qed

text \<open>
  The loop over a mapping's ordinary items reaches their end with the parts collected;
  what happens there depends on the marker and on the mapping's type.
\<close>

lemma sanetize_mapping_loop:
  assumes "\<And>kv acc. kv \<in> set rest \<Longrightarrow>
             sanetize_batch_from_sampler_state (snd kv) acc = Inr (f (snd kv), g (snd kv), acc @ h (snd kv))"
  shows "sanetize_mapping ty out seen rest marker acc =
           sanetize_mapping ty (out @ map (\<lambda>kv. (fst kv, f (snd kv))) rest)
             (seen @ map (\<lambda>kv. (fst kv, g (snd kv))) rest) [] marker
             (acc @ concat (map (\<lambda>kv. h (snd kv)) rest))"
  using assms
proof (induction rest arbitrary: out seen acc)
  case Nil
  show ?case by simp
next
  case (Cons kv rest)
  obtain k v where kv: "kv = (k, v)" by (cases kv)
  from Cons.prems [of kv acc] kv
  have 1: "sanetize_batch_from_sampler_state v acc = Inr (f v, g v, acc @ h v)" by simp
  have 2: "sanetize_mapping ty (out @ [(k, f v)]) (seen @ [(k, g v)]) rest marker (acc @ h v) =
           sanetize_mapping ty ((out @ [(k, f v)]) @ map (\<lambda>kv. (fst kv, f (snd kv))) rest)
             ((seen @ [(k, g v)]) @ map (\<lambda>kv. (fst kv, g (snd kv))) rest) [] marker
             ((acc @ h v) @ concat (map (\<lambda>kv. h (snd kv)) rest))"
    by (rule Cons.IH) (simp add: Cons.prems)
  from 1 2 kv show ?case by simp
qed

text \<open>
  A well-formed batch free of markers is returned as it is, unchanged, and nothing is
  appended.
\<close>

lemma marker_free_identity:
  "marker_free d \<Longrightarrow> well_formed d \<Longrightarrow>
   sanetize_batch_from_sampler_state d acc = Inr (d, d, acc)"
proof (induction d arbitrary: acc)
  case (Leaf x)
  show ?case by simp
next
  case (Mapping ty kvs)
  have "sanetize_mapping ty [] [] kvs None acc =
          sanetize_mapping ty ([] @ map (\<lambda>kv. (fst kv, snd kv)) kvs)
            ([] @ map (\<lambda>kv. (fst kv, snd kv)) kvs) [] None
            (acc @ concat (map (\<lambda>kv. []) kvs))"
  proof (rule sanetize_mapping_loop)
    fix kv acc'
    assume kv: "kv \<in> set kvs"
    with Mapping.prems have mf: "marker_free (snd kv)" and wf: "well_formed (snd kv)" by auto
    show "sanetize_batch_from_sampler_state (snd kv) acc' = Inr (snd kv, snd kv, acc' @ [])"
      using Mapping.IH [of kv "snd kv" acc'] kv mf wf by (cases kv) auto
  qed
  with Mapping.prems show ?case by simp
next
  case (Captured ty pre v post)
  then show ?case by simp
next
  case (Sequence ty ds)
  have "sanetize_elements ds acc = Inr (map (\<lambda>d. d) ds, map (\<lambda>d. d) ds, acc @ concat (map (\<lambda>d. []) ds))"
    by (rule sanetize_elements_loop) (use Sequence in auto)
  with Sequence.prems show ?case by simp
next
  case (NamedTuple ty ds)
  have "sanetize_elements ds acc = Inr (map (\<lambda>d. d) ds, map (\<lambda>d. d) ds, acc @ concat (map (\<lambda>d. []) ds))"
    by (rule sanetize_elements_loop) (use NamedTuple in auto)
  with NamedTuple.prems show ?case by simp
next
  case (DataClass ty fs)
  have "sanetize_fields fs acc =
          Inr (map (\<lambda>fd. (fst fd, snd fd)) fs, map (\<lambda>fd. (fst fd, snd fd)) fs,
               acc @ concat (map (\<lambda>fd. []) fs))"
  proof (rule sanetize_fields_loop)
    fix fd acc'
    assume fd: "fd \<in> set fs"
    with DataClass.prems have mf: "marker_free (snd fd)" and wf: "well_formed (snd fd)" by auto
    show "sanetize_batch_from_sampler_state (snd fd) acc' = Inr (snd fd, snd fd, acc' @ [])"
      using DataClass.IH [of fd "snd fd" acc'] fd mf wf by (cases fd) auto
  qed
  with DataClass.prems show ?case by simp
qed

subsection \<open>A marker\<close>

lemma collect_states_ok:
  assumes "distinct (map fst items')"
    and "\<forall>item \<in> set items'.
           case map_of (snd item) w of Some (Tensor cs) \<Rightarrow> cs \<noteq> [] | _ \<Rightarrow> False"
  shows "collect_states w items' acc =
     Inr (\<lambda>name. case map_of items' name of
                    None \<Rightarrow> acc name
                  | Some ssd \<Rightarrow>
                      (case map_of ssd w of
                         Some (Tensor cs) \<Rightarrow> Some [w \<mapsto> last cs]
                       | _ \<Rightarrow> None))"
  using assms
proof (induction items' arbitrary: acc)
  case Nil
  show ?case by simp
next
  case (Cons item rest)
  obtain name ssd where item: "item = (name, ssd)" by (cases item)
  from Cons.prems item obtain cs where cs: "map_of ssd w = Some (Tensor cs)" "cs \<noteq> []"
    by (auto split: option.splits ints.splits)
  from cs have li: "last_item (Tensor cs) = Inr (last cs)" by (simp add: last_item_def)
  from Cons.prems item have nin: "map_of rest name = None"
    by (simp add: map_of_eq_None_iff)
  have "collect_states w rest (acc(name \<mapsto> [w \<mapsto> last cs])) =
     Inr (\<lambda>n. case map_of rest n of
                 None \<Rightarrow> (acc(name \<mapsto> [w \<mapsto> last cs])) n
               | Some ssd \<Rightarrow>
                   (case map_of ssd w of
                      Some (Tensor cs) \<Rightarrow> Some [w \<mapsto> last cs]
                    | _ \<Rightarrow> None))"
    by (rule Cons.IH) (use Cons.prems in auto)
  moreover have "(\<lambda>n. case map_of rest n of
                 None \<Rightarrow> (acc(name \<mapsto> [w \<mapsto> last cs])) n
               | Some ssd \<Rightarrow>
                   (case map_of ssd w of
                      Some (Tensor cs) \<Rightarrow> Some [w \<mapsto> last cs]
                    | _ \<Rightarrow> None)) =
        (\<lambda>n. case map_of (item # rest) n of
                 None \<Rightarrow> acc n
               | Some ssd \<Rightarrow>
                   (case map_of ssd w of
                      Some (Tensor cs) \<Rightarrow> Some [w \<mapsto> last cs]
                    | _ \<Rightarrow> None))"
    using nin cs item by (auto simp: fun_eq_iff split: option.splits)
  ultimately show ?case using cs li item by simp
qed

lemma extract_sampler_state_ok:
  assumes "is_sampler_state v"
  shows "extract_sampler_state v = Inr (without_id v, unwrapped_state v)"
proof -
  from assms obtain ids where ids: "worker_ids v = Some (Tensor ids)" "ids \<noteq> []"
    by (auto simp: is_sampler_state_def split: option.splits ints.splits)
  with assms have d: "distinct (map fst (sampler_items v))"
    and ok: "\<forall>item \<in> set (sampler_items v).
           case map_of (snd item) (last ids) of Some (Tensor cs) \<Rightarrow> cs \<noteq> [] | _ \<Rightarrow> False"
    by (auto simp: is_sampler_state_def)
  have li: "last_item (Tensor ids) = Inr (last ids)" using ids by (simp add: last_item_def)
  note c = collect_states_ok [OF d ok, of Map.empty]
  have u: "unwrapped_state v =
      (\<lambda>name. case map_of (sampler_items v) name of
                    None \<Rightarrow> None
                  | Some ssd \<Rightarrow>
                      (case map_of ssd (last ids) of
                         Some (Tensor cs) \<Rightarrow> Some [last ids \<mapsto> last cs]
                       | _ \<Rightarrow> None))"
    using ids by (simp add: unwrapped_state_def)
  show ?thesis
    by (simp add: extract_sampler_state_def ids li c u without_id_def)
qed

subsection \<open>The walk against the specification\<close>

lemma stripping_refines:
  "well_formed d \<Longrightarrow>
   sanetize_batch_from_sampler_state d acc = Inr (spec_payload d, input_after d, acc @ spec_states d)"
proof (induction d arbitrary: acc)
  case (Leaf x)
  show ?case by simp
next
  case (Mapping ty kvs)
  have "sanetize_mapping ty [] [] kvs None acc =
          sanetize_mapping ty ([] @ map (\<lambda>kv. (fst kv, spec_payload (snd kv))) kvs)
            ([] @ map (\<lambda>kv. (fst kv, input_after (snd kv))) kvs) [] None
            (acc @ concat (map (\<lambda>kv. spec_states (snd kv)) kvs))"
  proof (rule sanetize_mapping_loop)
    fix kv acc'
    assume kv: "kv \<in> set kvs"
    with Mapping.prems have wf: "well_formed (snd kv)" by simp
    show "sanetize_batch_from_sampler_state (snd kv) acc' =
            Inr (spec_payload (snd kv), input_after (snd kv), acc' @ spec_states (snd kv))"
      using Mapping.IH [of kv "snd kv" acc'] kv wf by (cases kv) auto
  qed
  with Mapping.prems show ?case by simp
next
  case (Captured ty pre v post)
  from Captured.prems have v: "is_sampler_state v"
    and dk: "SKey ''data'' \<in> fst ` set (pre @ post)"
    and each: "\<forall>kv \<in> set pre. marker_free (snd kv) \<and> well_formed (snd kv)"
    by simp_all
  from dk obtain payload where pl: "map_of (pre @ post) (SKey ''data'') = Some payload"
    by (metis domD dom_map_of_conv_image_fst)
  have "sanetize_mapping ty [] [] pre (Some (v, post)) acc =
          sanetize_mapping ty ([] @ map (\<lambda>kv. (fst kv, snd kv)) pre)
            ([] @ map (\<lambda>kv. (fst kv, snd kv)) pre) [] (Some (v, post))
            (acc @ concat (map (\<lambda>kv. []) pre))"
  proof (rule sanetize_mapping_loop)
    fix kv acc'
    assume kv: "kv \<in> set pre"
    with each have "marker_free (snd kv)" "well_formed (snd kv)" by auto
    from marker_free_identity [OF this]
    show "sanetize_batch_from_sampler_state (snd kv) acc' = Inr (snd kv, snd kv, acc' @ [])"
      by simp
  qed
  with pl show ?case by (simp add: extract_sampler_state_ok [OF v])
next
  case (Sequence ty ds)
  have "sanetize_elements ds acc =
          Inr (map spec_payload ds, map input_after ds, acc @ concat (map spec_states ds))"
    by (rule sanetize_elements_loop) (use Sequence in auto)
  with Sequence.prems show ?case by simp
next
  case (NamedTuple ty ds)
  have "sanetize_elements ds acc =
          Inr (map spec_payload ds, map input_after ds, acc @ concat (map spec_states ds))"
    by (rule sanetize_elements_loop) (use NamedTuple in auto)
  with NamedTuple.prems show ?case by simp
next
  case (DataClass ty fs)
  have "sanetize_fields fs acc =
          Inr (map (\<lambda>fd. (fst fd, spec_payload (snd fd))) fs,
               map (\<lambda>fd. (fst fd, input_after (snd fd))) fs,
               acc @ concat (map (\<lambda>fd. spec_states (snd fd)) fs))"
  proof (rule sanetize_fields_loop)
    fix fd acc'
    assume fd: "fd \<in> set fs"
    with DataClass.prems have wf: "well_formed (snd fd)" by auto
    show "sanetize_batch_from_sampler_state (snd fd) acc' =
            Inr (spec_payload (snd fd), input_after (snd fd), acc' @ spec_states (snd fd))"
      using DataClass.IH [of fd "snd fd" acc'] fd wf by (cases fd) auto
  qed
  with DataClass.prems show ?case by simp
qed

text \<open>
  C7, as stated, fails on the composite the capture layer emits: the call removes the
  \<^verbatim>\<open>"id"\<close> entry from the snapshot under the marker, inside its input
  (\<^verbatim>\<open>v.pop("id")\<close>), so the input batch is not left unmodified. The three components
  are the payload returned, the input after the call and the accumulator.
\<close>

theorem stripping_counterexample:
  "convert_batch_into_state_dict
     (Captured dict_type [(SKey ''data'', Leaf ''x'')]
        (Snapshot (Some (Tensor [0, 0])) [(''sampler'', [(0, Tensor [1, 2])])]) []) =
   Inr (Leaf ''x'',
        Captured dict_type [(SKey ''data'', Leaf ''x'')]
          (Snapshot None [(''sampler'', [(0, Tensor [1, 2])])]) [],
        [[''sampler'' \<mapsto> [0 \<mapsto> 2]]]) \<and>
   Captured dict_type [(SKey ''data'', Leaf ''x'')]
     (Snapshot None [(''sampler'', [(0, Tensor [1, 2])])]) [] \<noteq>
   Captured dict_type [(SKey ''data'', Leaf ''x'')]
     (Snapshot (Some (Tensor [0, 0])) [(''sampler'', [(0, Tensor [1, 2])])]) []"
  by (simp add: convert_batch_into_state_dict_def extract_sampler_state_def last_item_def)

text \<open>A second call on the same batch finds no \<^verbatim>\<open>"id"\<close> to pop.\<close>

lemma stripping_twice_raises:
  "convert_batch_into_state_dict
     (Captured dict_type [(SKey ''data'', Leaf ''x'')]
        (Snapshot None [(''sampler'', [(0, Tensor [1, 2])])]) []) = Inl KeyError"
  by (simp add: convert_batch_into_state_dict_def extract_sampler_state_def)

text \<open>
  The marker ends the walk of its mapping: what is returned for the mapping is its
  \<^verbatim>\<open>"data"\<close> entry as it stands. A marker nested in an entry visited before is
  extracted (and loses its \<^verbatim>\<open>"id"\<close>) but stays in the payload returned, which is why
  well-formedness asks that nothing else in a marker-carrying mapping carries a marker.
\<close>

lemma stripping_nested_marker_stays:
  "convert_batch_into_state_dict
     (Captured dict_type
        [(SKey ''data'',
            Captured dict_type [(SKey ''data'', Leaf ''x'')] (Snapshot (Some (Tensor [1])) []) [])]
        (Snapshot (Some (Tensor [0])) []) []) =
   Inr (Captured dict_type [(SKey ''data'', Leaf ''x'')] (Snapshot None []) [],
        Captured dict_type
          [(SKey ''data'', Captured dict_type [(SKey ''data'', Leaf ''x'')] (Snapshot None []) [])]
          (Snapshot None []) [],
        [Map.empty, Map.empty])"
  by (simp add: convert_batch_into_state_dict_def extract_sampler_state_def last_item_def)

text \<open>
  Shape and types are kept only where the types can be rebuilt: on a
  \<^verbatim>\<open>defaultdict\<close> or a \<^verbatim>\<open>range\<close> the walk raises, which is why well-formedness
  asks that the constructor of every rebuilt container accepts its parts. A snapshot that
  has not been collated holds plain integers, which cannot be subscripted.
\<close>

lemma stripping_rebuild_raises:
  "convert_batch_into_state_dict (Mapping defaultdict_type [(SKey ''a'', Leaf ''x'')]) = Inl TypeError \<and>
   convert_batch_into_state_dict (Sequence range_type [Leaf ''0'', Leaf ''1'']) = Inl TypeError"
  by (simp add: convert_batch_into_state_dict_def defaultdict_type_def range_type_def)

lemma stripping_plain_ids_raises:
  "convert_batch_into_state_dict
     (Captured dict_type [(SKey ''data'', Leaf ''x'')]
        (Snapshot (Some (Plain 0)) [(''sampler'', [(0, Plain 2)])]) []) = Inl TypeError"
  by (simp add: convert_batch_into_state_dict_def extract_sampler_state_def last_item_def)

text \<open>
  C7, amended. For every well-formed nested composite batch (every container that is
  rebuilt has a type whose constructor accepts the rebuilt parts; a mapping that carries
  the marker has a \<^verbatim>\<open>"data"\<close> entry, carries no further marker, and holds under the
  marker a collated snapshot with a worker id and, for every sampler, a count for that
  worker), the stripping function returns the payload (the input's shape and container
  types, every marker-carrying mapping replaced by its \<^verbatim>\<open>"data"\<close> entry) and appends
  exactly one extracted state dictionary per marker, in the order of the walk, with the
  counters and the worker id unwrapped to scalars by taking the last element of their
  vectors. The input batch is changed by the call: afterwards the \<^verbatim>\<open>"id"\<close> entry is
  gone from the snapshot of every marker, and nothing else is changed. A well-formed batch
  that carries no marker is returned as it is and left unmodified, and nothing is
  appended for it.
\<close>

theorem stripping_refines_spec:
  assumes "well_formed batch"
  shows "convert_batch_into_state_dict batch =
           Inr (spec_payload batch, input_after batch, spec_states batch) \<and>
         (marker_free batch \<longrightarrow> convert_batch_into_state_dict batch = Inr (batch, batch, []))"
  using stripping_refines [OF assms, of "[]"] marker_free_identity [OF _ assms, of "[]"]
  by (simp add: convert_batch_into_state_dict_def)

text \<open>A list of a captured composite and a plain item.\<close>

theorem stripping_refines_spec_witness:
  "well_formed (Sequence list_type
     [Captured dict_type [(SKey ''data'', Leaf ''x'')]
        (Snapshot (Some (Tensor [0, 0])) [(''sampler'', [(0, Tensor [1, 2])])]) [],
      Leaf ''y'']) \<and>
   convert_batch_into_state_dict (Sequence list_type
     [Captured dict_type [(SKey ''data'', Leaf ''x'')]
        (Snapshot (Some (Tensor [0, 0])) [(''sampler'', [(0, Tensor [1, 2])])]) [],
      Leaf ''y'']) =
     Inr (Sequence list_type [Leaf ''x'', Leaf ''y''],
          Sequence list_type
            [Captured dict_type [(SKey ''data'', Leaf ''x'')]
               (Snapshot None [(''sampler'', [(0, Tensor [1, 2])])]) [],
             Leaf ''y''],
          [unwrapped_state (Snapshot (Some (Tensor [0, 0])) [(''sampler'', [(0, Tensor [1, 2])])])]) \<and>
   unwrapped_state (Snapshot (Some (Tensor [0, 0])) [(''sampler'', [(0, Tensor [1, 2])])])
     ''sampler'' = Some [0 \<mapsto> 2]"
proof -
  let ?b = "Sequence list_type
     [Captured dict_type [(SKey ''data'', Leaf ''x'')]
        (Snapshot (Some (Tensor [0, 0])) [(''sampler'', [(0, Tensor [1, 2])])]) [],
      Leaf ''y'']"
  have wf: "well_formed ?b"
    by (simp add: is_sampler_state_def list_type_def)
  have u: "unwrapped_state (Snapshot (Some (Tensor [0, 0])) [(''sampler'', [(0, Tensor [1, 2])])])
     ''sampler'' = Some [0 \<mapsto> 2]"
    by (simp add: unwrapped_state_def)
  from stripping_refines_spec [OF wf, THEN conjunct1] wf u show ?thesis
    by (simp add: without_id_def)
qed

end
